theory Spec2Isabelle
  imports Complex_Main "HOL-Library.Word"
begin

section \<open>The PSD rendering service (src/lib/psd-service.ts)\<close>

text \<open>
  The module renders a Photoshop document to a canvas in four attempts of decreasing
  fidelity. Two collaborators are not part of the module: the parser \<open>readPsd\<close> of the
  ag-psd library and the canvas of the browser. The parser is a parameter of the model
  (a function from the buffer and the options to a document or a thrown error); the canvas
  is modelled by what the module does to it: a canvas is its two dimensions and the list
  of the drawing operations applied to it since it was created, oldest first. The pixels
  that blending produces are floating-point arithmetic of the browser and are not
  computed; two canvases with the same operations show the same picture.

  Numbers: widths, heights and lengths are natural numbers, offsets are integers, an
  opacity is a rational number. What is thrown is always an exception object, so that
  reading \<open>e.message\<close> in a handler cannot fail.
\<close>

subsection \<open>Values\<close>

type_synonym byte = "8 word"

text \<open>What a \<open>throw\<close> carries: the module's own \<open>Error\<close> with its message, and the
  exceptions of the platform calls the module makes. Browsers do not agree on the name of
  the \<open>DOMException\<close> they throw in a given case (\<open>InvalidStateError\<close> or
  \<open>IndexSizeError\<close>), so the name is left out.\<close>

datatype error =
  Error string
| DOMException
| RangeError
| TypeError

datatype RenderStage = raw_data | high_fidelity | safe_mode | composite

text \<open>A typed array, as far as the module looks at one: the bytes of the whole
  \<open>ArrayBuffer\<close> it is a view of (\<open>.buffer\<close>) and its number of elements (\<open>.length\<close>).
  The elements may be wider than a byte and the view may cover a part of the buffer only,
  so the two are independent.\<close>

record TypedArray =
  ta_buffer :: "byte list"
  ta_length :: nat

text \<open>\<open>{ data, width, height }\<close>, the pixel record of ag-psd, whose \<open>data\<close> is a typed
  array. Its \<open>.buffer\<close> is an object, so the left operand of
  \<open>pd.data.buffer || pd.data\<close> is the one taken.\<close>

record PixelData =
  pd_data :: TypedArray
  pd_width :: nat
  pd_height :: nat

record ImageData =
  id_data :: "byte list"
  id_width :: nat
  id_height :: nat

datatype HTMLCanvasElement =
  Canvas (cv_width: nat) (cv_height: nat) (cv_ops: "canvas_op list")
and canvas_op =
  PutImageData ImageData int int
| DrawImage HTMLCanvasElement rat string int int

text \<open>The fields of an ag-psd layer that the module reads. An absent optional field is
  \<open>None\<close>; \<open>hidden\<close> is a boolean whose absence reads as false, and \<open>adjustment\<close> is an
  object of which only the presence is tested.\<close>

datatype Layer = Layer
  (l_hidden: bool)
  (l_adjustment: bool)
  (l_children: "Layer list option")
  (l_imageData: "PixelData option")
  (l_canvas: "HTMLCanvasElement option")
  (l_opacity: "rat option")
  (l_blendMode: "string option")
  (l_left: "int option")
  (l_top: "int option")

record Psd =
  psd_width :: nat
  psd_height :: nat
  psd_children :: "Layer list option"
  psd_imageData :: "PixelData option"
  psd_canvas :: "HTMLCanvasElement option"

record PSDRenderResult =
  r_canvas :: HTMLCanvasElement
  r_stage :: RenderStage
  r_layerCount :: nat
  r_width :: nat
  r_height :: nat

text \<open>The options object handed to \<open>readPsd\<close>; an option left out is false.\<close>

record ReadOptions =
  useImageData :: bool
  skipThumbnail :: bool
  skipLinkedFilesData :: bool
  skipLayerImageData :: bool
  logMissingFeatures :: bool

text \<open>The environment: the parser, whether \<open>getContext('2d')\<close> yields a context for a
  canvas (the module tests the result for null), and whether the engine grants a typed
  array of a given number of bytes.\<close>

record env =
  readPsd :: "byte list \<Rightarrow> ReadOptions \<Rightarrow> error + Psd"
  context2d_available :: "HTMLCanvasElement \<Rightarrow> bool"
  can_allocate :: "nat \<Rightarrow> bool"

subsection \<open>The blend-mode table\<close>

definition BLEND_MODE_MAP :: "(string \<times> string) list" where
  "BLEND_MODE_MAP =
    [(''normal'', ''source-over''), (''pass through'', ''source-over''), (''dissolve'', ''source-over''),
     (''multiply'', ''multiply''), (''screen'', ''screen''), (''overlay'', ''overlay''),
     (''darken'', ''darken''), (''lighten'', ''lighten''),
     (''color dodge'', ''color-dodge''), (''linear dodge'', ''color-dodge''),
     (''color burn'', ''color-burn''), (''linear burn'', ''color-burn''),
     (''hard light'', ''hard-light''), (''soft light'', ''soft-light''),
     (''vivid light'', ''hard-light''), (''linear light'', ''hard-light''),
     (''pin light'', ''hard-light''), (''hard mix'', ''hard-light''),
     (''difference'', ''difference''), (''exclusion'', ''exclusion''),
     (''subtract'', ''difference''), (''divide'', ''difference''),
     (''hue'', ''hue''), (''saturation'', ''saturation''), (''color'', ''color''),
     (''luminosity'', ''luminosity''),
     (''darker color'', ''darken''), (''lighter color'', ''lighten'')]"

text \<open>The table is an object literal, so a property read that misses the table's own
  keys goes on to \<open>Object.prototype\<close> and finds a function or an object there for the
  names below; every other miss is \<open>undefined\<close>.\<close>

definition Object_prototype_keys :: "string list" where
  "Object_prototype_keys =
    [''constructor'', ''hasOwnProperty'', ''isPrototypeOf'', ''propertyIsEnumerable'',
     ''toLocaleString'', ''toString'', ''valueOf'', ''__proto__'',
     ''__defineGetter__'', ''__defineSetter__'', ''__lookupGetter__'', ''__lookupSetter__'']"

datatype property = Str string | Inherited

definition BLEND_MODE_MAP_get :: "string \<Rightarrow> property option" where
  "BLEND_MODE_MAP_get k =
    (case map_of BLEND_MODE_MAP k of
       Some v \<Rightarrow> Some (Str v)
     | None \<Rightarrow> if k \<in> set Object_prototype_keys then Some Inherited else None)"

subsection \<open>The canvas\<close>

text \<open>An assignment to \<open>width\<close> or \<open>height\<close> of a canvas: the attribute is an
  \<open>unsigned long\<close> that reflects a content attribute, so the number is taken modulo
  \<open>2^32\<close>, and a value above 2147483647 gives way to the default of the attribute.\<close>

definition reflect_dimension :: "nat \<Rightarrow> nat \<Rightarrow> nat" where
  "reflect_dimension dflt v =
    (let n = v mod 2 ^ 32 in if n \<le> 2147483647 then n else dflt)"

text \<open>\<open>document.createElement('canvas')\<close> followed by the assignments of \<open>width\<close> and
  \<open>height\<close>: a blank canvas; the defaults are 300 and 150.\<close>

definition createCanvas :: "nat \<Rightarrow> nat \<Rightarrow> HTMLCanvasElement" where
  "createCanvas w h = Canvas (reflect_dimension 300 w) (reflect_dimension 150 h) []"

record CanvasRenderingContext2D =
  ctx_canvas :: HTMLCanvasElement
  globalAlpha :: rat
  globalCompositeOperation :: string
  ctx_saved :: "(rat \<times> string) list"

definition getContext :: "env \<Rightarrow> HTMLCanvasElement \<Rightarrow> CanvasRenderingContext2D option" where
  "getContext e c =
    (if context2d_available e c
     then Some \<lparr>ctx_canvas = c, globalAlpha = 1, globalCompositeOperation = ''source-over'',
                ctx_saved = []\<rparr>
     else None)"

definition save :: "CanvasRenderingContext2D \<Rightarrow> CanvasRenderingContext2D" where
  "save ctx = ctx\<lparr>ctx_saved := (globalAlpha ctx, globalCompositeOperation ctx) # ctx_saved ctx\<rparr>"

definition restore :: "CanvasRenderingContext2D \<Rightarrow> CanvasRenderingContext2D" where
  "restore ctx =
    (case ctx_saved ctx of
       [] \<Rightarrow> ctx
     | (a, m) # st \<Rightarrow> ctx\<lparr>globalAlpha := a, globalCompositeOperation := m, ctx_saved := st\<rparr>)"

text \<open>The setter of \<open>globalAlpha\<close> ignores a value outside the range 0 to 1.\<close>

definition set_globalAlpha :: "rat \<Rightarrow> CanvasRenderingContext2D \<Rightarrow> CanvasRenderingContext2D" where
  "set_globalAlpha a ctx = (if 0 \<le> a \<and> a \<le> 1 then ctx\<lparr>globalAlpha := a\<rparr> else ctx)"

definition composite_operations :: "string list" where
  "composite_operations =
    [''source-over'', ''source-in'', ''source-out'', ''source-atop'',
     ''destination-over'', ''destination-in'', ''destination-out'', ''destination-atop'',
     ''lighter'', ''copy'', ''xor'',
     ''multiply'', ''screen'', ''overlay'', ''darken'', ''lighten'',
     ''color-dodge'', ''color-burn'', ''hard-light'', ''soft-light'',
     ''difference'', ''exclusion'', ''hue'', ''saturation'', ''color'', ''luminosity'']"

text \<open>The setter of \<open>globalCompositeOperation\<close> ignores whatever is not the name of a
  compositing operation, among them a function or an object.\<close>

definition set_globalCompositeOperation ::
  "property \<Rightarrow> CanvasRenderingContext2D \<Rightarrow> CanvasRenderingContext2D" where
  "set_globalCompositeOperation v ctx =
    (case v of
       Str s \<Rightarrow> if s \<in> set composite_operations then ctx\<lparr>globalCompositeOperation := s\<rparr> else ctx
     | Inherited \<Rightarrow> ctx)"

text \<open>\<open>drawImage\<close> throws for a source canvas with a zero dimension; otherwise the
  operation is recorded with the alpha and the compositing operation then in force.\<close>

definition drawImage ::
  "HTMLCanvasElement \<Rightarrow> int \<Rightarrow> int \<Rightarrow> CanvasRenderingContext2D \<Rightarrow> error + CanvasRenderingContext2D" where
  "drawImage src dx dy ctx =
    (if cv_width src = 0 \<or> cv_height src = 0 then Inl DOMException
     else Inr (ctx\<lparr>ctx_canvas :=
            Canvas (cv_width (ctx_canvas ctx)) (cv_height (ctx_canvas ctx))
              (cv_ops (ctx_canvas ctx) @
                 [DrawImage src (globalAlpha ctx) (globalCompositeOperation ctx) dx dy])\<rparr>))"

text \<open>\<open>new ImageData(data, sw, sh)\<close>: \<open>sw\<close> and \<open>sh\<close> are converted to \<open>unsigned long\<close>;
  the data must be a non-empty multiple of four bytes, a whole number of rows of \<open>sw\<close>
  pixels, and \<open>sh\<close> rows of them.\<close>

definition new_ImageData :: "byte list \<Rightarrow> nat \<Rightarrow> nat \<Rightarrow> error + ImageData" where
  "new_ImageData d sw sh =
    (let w = sw mod 2 ^ 32; h = sh mod 2 ^ 32 in
     if length d = 0 \<or> length d mod 4 \<noteq> 0 \<or> w = 0
        \<or> (length d div 4) mod w \<noteq> 0 \<or> (length d div 4) div w \<noteq> h
     then Inl DOMException
     else Inr \<lparr>id_data = d, id_width = w, id_height = h\<rparr>)"

text \<open>\<open>new Uint8ClampedArray(n)\<close>: a length above \<open>2^53 - 1\<close> is a \<open>RangeError\<close> in every
  engine, and so is a length the engine does not grant; otherwise the array is \<open>n\<close> zero
  bytes. The module computes \<open>n\<close> as a product of doubles: the product is exact when it
  is below \<open>2^53\<close>, and when the exact product is \<open>2^53\<close> or more, so is the computed one.\<close>

definition new_Uint8ClampedArray :: "env \<Rightarrow> nat \<Rightarrow> error + byte list" where
  "new_Uint8ClampedArray e n =
    (if n \<le> 9007199254740991 \<and> can_allocate e n then Inr (replicate n 0) else Inl RangeError)"

definition putImageData ::
  "ImageData \<Rightarrow> int \<Rightarrow> int \<Rightarrow> CanvasRenderingContext2D \<Rightarrow> CanvasRenderingContext2D" where
  "putImageData img dx dy ctx =
    ctx\<lparr>ctx_canvas :=
      Canvas (cv_width (ctx_canvas ctx)) (cv_height (ctx_canvas ctx))
        (cv_ops (ctx_canvas ctx) @ [PutImageData img dx dy])\<rparr>"

text \<open>\<open>buf.set(src)\<close> on a typed array: the source is copied over the start of the
  target; a source longer than the target is a \<open>RangeError\<close>.\<close>

definition typed_array_set :: "byte list \<Rightarrow> byte list \<Rightarrow> error + byte list" where
  "typed_array_set buf src =
    (if length buf < length src then Inl RangeError else Inr (src @ drop (length src) buf))"

subsection \<open>countLayers, pixelDataToCanvas, buildResult\<close>

function countLayers :: "Layer list option \<Rightarrow> nat" where
  "countLayers None = 0"
| "countLayers (Some layers) = fold (\<lambda>l n. n + 1 + countLayers (l_children l)) layers 0"
  by pat_completeness auto
termination
proof (relation "measure (size_option (size_list size))")
  show "wf (measure (size_option (size_list size)))"
    by simp
next
  fix layers :: "Layer list" and l :: Layer
  assume "l \<in> set layers"
  then have "size l \<le> size_list size layers"
    by (simp add: size_list_estimation')
  then show "(l_children l, Some layers) \<in> measure (size_option (size_list size))"
    by (cases l) simp
qed

definition pixelDataToCanvas :: "env \<Rightarrow> PixelData \<Rightarrow> error + HTMLCanvasElement" where
  "pixelDataToCanvas e pd =
    (let c = createCanvas (pd_width pd) (pd_height pd) in
     case getContext e c of
       None \<Rightarrow> Inr c
     | Some ctx \<Rightarrow>
         if 0 < ta_length (pd_data pd) then
           (let src = ta_buffer (pd_data pd) in
            case new_Uint8ClampedArray e (pd_width pd * pd_height pd * 4) of
              Inl err \<Rightarrow> Inl err
            | Inr buf \<Rightarrow>
                (case typed_array_set buf
                        (if length src \<le> length buf then src else take (length buf) src) of
                   Inl err \<Rightarrow> Inl err
                 | Inr buf' \<Rightarrow>
                     (case new_ImageData buf' (pd_width pd) (pd_height pd) of
                        Inl err \<Rightarrow> Inl err
                      | Inr img \<Rightarrow> Inr (ctx_canvas (putImageData img 0 0 ctx)))))
         else Inr c)"

text \<open>\<open>psd.width || canvas.width\<close>: a zero width of the document gives way to the
  canvas's.\<close>

definition buildResult :: "HTMLCanvasElement \<Rightarrow> RenderStage \<Rightarrow> Psd \<Rightarrow> PSDRenderResult" where
  "buildResult canvas stage psd =
    \<lparr>r_canvas = canvas, r_stage = stage,
     r_layerCount = countLayers (psd_children psd),
     r_width = (if psd_width psd \<noteq> 0 then psd_width psd else cv_width canvas),
     r_height = (if psd_height psd \<noteq> 0 then psd_height psd else cv_height canvas)\<rparr>"

subsection \<open>The two manual compositors\<close>

text \<open>The five statements both compositors run for a layer that is painted, from
  \<open>ctx.save()\<close> to \<open>ctx.restore()\<close>. \<open>l.opacity ?? 255\<close> replaces an absent opacity,
  \<open>l.blendMode || 'normal'\<close> an absent or empty tag, \<open>l.left || 0\<close> an absent offset. An
  exception of \<open>drawImage\<close> leaves the function before \<open>restore\<close>.\<close>

definition paintLayer ::
  "Layer \<Rightarrow> HTMLCanvasElement \<Rightarrow> CanvasRenderingContext2D \<Rightarrow> error + CanvasRenderingContext2D" where
  "paintLayer l src ctx =
    (let c1 = save ctx;
         c2 = set_globalAlpha ((case l_opacity l of None \<Rightarrow> 255 | Some v \<Rightarrow> v) / 255) c1;
         tag = (case l_blendMode l of None \<Rightarrow> ''normal'' | Some s \<Rightarrow> if s = [] then ''normal'' else s);
         c3 = set_globalCompositeOperation
                (case BLEND_MODE_MAP_get tag of None \<Rightarrow> Str ''source-over'' | Some v \<Rightarrow> v) c2
     in case drawImage src (case l_left l of None \<Rightarrow> 0 | Some x \<Rightarrow> x)
                           (case l_top l of None \<Rightarrow> 0 | Some y \<Rightarrow> y) c3 of
          Inl err \<Rightarrow> Inl err
        | Inr c4 \<Rightarrow> Inr (restore c4))"

text \<open>The last branch of the loop body of \<open>renderLayersRaw\<close>: a layer with pixel data of
  positive size is converted and painted, any other layer leaves the surface as it is.\<close>

definition paintRaw ::
  "env \<Rightarrow> Layer \<Rightarrow> CanvasRenderingContext2D \<Rightarrow> error + CanvasRenderingContext2D" where
  "paintRaw e l ctx =
    (case l_imageData l of
       None \<Rightarrow> Inr ctx
     | Some pd \<Rightarrow>
         if 0 < pd_width pd \<and> 0 < pd_height pd then
           (case pixelDataToCanvas e pd of
              Inl err \<Rightarrow> Inl err
            | Inr lc \<Rightarrow> paintLayer l lc ctx)
         else Inr ctx)"

text \<open>The last branch of the loop body of \<open>renderLayersCanvas\<close>.\<close>

definition paintCanvas ::
  "Layer \<Rightarrow> CanvasRenderingContext2D \<Rightarrow> error + CanvasRenderingContext2D" where
  "paintCanvas l ctx =
    (case l_canvas l of
       None \<Rightarrow> Inr ctx
     | Some lc \<Rightarrow> paintLayer l lc ctx)"

lemma children_smaller:
  assumes inside: "n < length layers" and group: "l_children (layers ! n) = Some cs"
  shows "size_list size cs < size_list size layers"
proof -
  have "size (layers ! n) \<le> size_list size layers"
    using inside by (intro size_list_estimation' [where x = "layers ! n"]) simp_all
  moreover have "size_list size cs < size (layers ! n)"
    using group by (cases "layers ! n") simp
  ultimately show ?thesis
    by simp
qed

text \<open>The loop \<open>for (let i = layers.length - 1; i >= 0; i--)\<close> with the index as its
  argument. \<open>if (l.children)\<close> tests the presence of the array: an empty array is truthy.
  An index beyond the array would read \<open>undefined\<close> and fail on \<open>l.hidden\<close>.\<close>

function renderLayersRaw_loop ::
  "env \<Rightarrow> Layer list \<Rightarrow> int \<Rightarrow> CanvasRenderingContext2D \<Rightarrow> error + CanvasRenderingContext2D" where
  "renderLayersRaw_loop e layers i ctx =
    (if 0 \<le> i then
       (if nat i < length layers then
          (let l = layers ! nat i in
           if l_hidden l \<or> l_adjustment l then renderLayersRaw_loop e layers (i - 1) ctx
           else
             (case l_children l of
                Some cs \<Rightarrow>
                  (case renderLayersRaw_loop e cs (int (length cs) - 1) ctx of
                     Inl err \<Rightarrow> Inl err
                   | Inr ctx' \<Rightarrow> renderLayersRaw_loop e layers (i - 1) ctx')
              | None \<Rightarrow>
                  (case paintRaw e l ctx of
                     Inl err \<Rightarrow> Inl err
                   | Inr ctx' \<Rightarrow> renderLayersRaw_loop e layers (i - 1) ctx')))
        else Inl TypeError)
     else Inr ctx)"
  by pat_completeness auto
termination
  by (relation "measures [\<lambda>(e, layers, i, ctx). size_list size layers,
                          \<lambda>(e, layers, i, ctx). nat (i + 1)]")
     (auto dest: children_smaller)

definition renderLayersRaw ::
  "env \<Rightarrow> CanvasRenderingContext2D \<Rightarrow> Layer list \<Rightarrow> error + CanvasRenderingContext2D" where
  "renderLayersRaw e ctx layers = renderLayersRaw_loop e layers (int (length layers) - 1) ctx"

function renderLayersCanvas_loop ::
  "Layer list \<Rightarrow> int \<Rightarrow> CanvasRenderingContext2D \<Rightarrow> error + CanvasRenderingContext2D" where
  "renderLayersCanvas_loop layers i ctx =
    (if 0 \<le> i then
       (if nat i < length layers then
          (let l = layers ! nat i in
           if l_hidden l \<or> l_adjustment l then renderLayersCanvas_loop layers (i - 1) ctx
           else
             (case l_children l of
                Some cs \<Rightarrow>
                  (case renderLayersCanvas_loop cs (int (length cs) - 1) ctx of
                     Inl err \<Rightarrow> Inl err
                   | Inr ctx' \<Rightarrow> renderLayersCanvas_loop layers (i - 1) ctx')
              | None \<Rightarrow>
                  (case paintCanvas l ctx of
                     Inl err \<Rightarrow> Inl err
                   | Inr ctx' \<Rightarrow> renderLayersCanvas_loop layers (i - 1) ctx')))
        else Inl TypeError)
     else Inr ctx)"
  by pat_completeness auto
termination
  by (relation "measures [\<lambda>(layers, i, ctx). size_list size layers,
                          \<lambda>(layers, i, ctx). nat (i + 1)]")
     (auto dest: children_smaller)

definition renderLayersCanvas ::
  "CanvasRenderingContext2D \<Rightarrow> Layer list \<Rightarrow> error + CanvasRenderingContext2D" where
  "renderLayersCanvas ctx layers = renderLayersCanvas_loop layers (int (length layers) - 1) ctx"

text \<open>\<open>!psd.children?.length\<close> holds for an absent and for an empty sequence. \<open>None\<close> is
  the \<open>null\<close> the function returns.\<close>

definition compositeRawLayers :: "env \<Rightarrow> Psd \<Rightarrow> error + HTMLCanvasElement option" where
  "compositeRawLayers e psd =
    (case psd_children psd of
       None \<Rightarrow> Inr None
     | Some layers \<Rightarrow>
         if psd_width psd = 0 \<or> psd_height psd = 0 \<or> length layers = 0 then Inr None
         else
           (case getContext e (createCanvas (psd_width psd) (psd_height psd)) of
              None \<Rightarrow> Inr None
            | Some ctx \<Rightarrow>
                (case renderLayersRaw e ctx layers of
                   Inl err \<Rightarrow> Inl err
                 | Inr ctx' \<Rightarrow> Inr (Some (ctx_canvas ctx')))))"

definition compositeCanvasLayers :: "env \<Rightarrow> Psd \<Rightarrow> error + HTMLCanvasElement option" where
  "compositeCanvasLayers e psd =
    (case psd_children psd of
       None \<Rightarrow> Inr None
     | Some layers \<Rightarrow>
         if psd_width psd = 0 \<or> psd_height psd = 0 \<or> length layers = 0 then Inr None
         else
           (case getContext e (createCanvas (psd_width psd) (psd_height psd)) of
              None \<Rightarrow> Inr None
            | Some ctx \<Rightarrow>
                (case renderLayersCanvas ctx layers of
                   Inl err \<Rightarrow> Inl err
                 | Inr ctx' \<Rightarrow> Inr (Some (ctx_canvas ctx')))))"

subsection \<open>The pipeline\<close>

text \<open>\<open>new DataView(buffer).getUint32(0)\<close>: the first four bytes, big-endian.\<close>

definition getUint32 :: "byte list \<Rightarrow> error + nat" where
  "getUint32 b =
    (if length b < 4 then Inl RangeError
     else Inr (unat (b ! 0) * 2 ^ 24 + unat (b ! 1) * 2 ^ 16 + unat (b ! 2) * 2 ^ 8 + unat (b ! 3)))"

definition pdf_error :: error where
  "pdf_error = Error ''This is a PDF file. Use the PDF Viewer tool.''"

definition not_psd_error :: error where
  "not_psd_error = Error ''Not a valid PSD file.''"

definition unsupported_error :: error where
  \<open>unsupported_error =
    Error ''Unsupported PSD structure. Try saving with "Maximize Compatibility" in Photoshop.''\<close>

text \<open>The block under \<open>// Validate PSD magic number\<close>: the error it throws, if any.\<close>

definition validate_magic :: "byte list \<Rightarrow> error option" where
  "validate_magic buffer =
    (if 4 \<le> length buffer then
       (case getUint32 buffer of
          Inl err \<Rightarrow> Some err
        | Inr sig \<Rightarrow>
            if sig = 0x25504446 then Some pdf_error
            else if sig \<noteq> 0x38425053 then Some not_psd_error
            else None)
     else None)"

definition options_raw_data :: ReadOptions where
  "options_raw_data =
    \<lparr>useImageData = True, skipThumbnail = True, skipLinkedFilesData = False,
     skipLayerImageData = False, logMissingFeatures = True\<rparr>"

definition options_high_fidelity :: ReadOptions where
  "options_high_fidelity =
    \<lparr>useImageData = False, skipThumbnail = True, skipLinkedFilesData = False,
     skipLayerImageData = False, logMissingFeatures = True\<rparr>"

definition options_safe_mode :: ReadOptions where
  "options_safe_mode =
    \<lparr>useImageData = False, skipThumbnail = True, skipLinkedFilesData = True,
     skipLayerImageData = False, logMissingFeatures = True\<rparr>"

definition options_composite :: ReadOptions where
  "options_composite =
    \<lparr>useImageData = False, skipThumbnail = True, skipLinkedFilesData = True,
     skipLayerImageData = True, logMissingFeatures = False\<rparr>"

text \<open>The bodies of the four \<open>try\<close> blocks. \<open>Inl\<close> is an exception that reaches the
  \<open>catch\<close>, \<open>Inr (Some r)\<close> a \<open>return\<close> of the result \<open>r\<close>, \<open>Inr None\<close> the end of the block
  reached without a return.\<close>

definition try_raw_data :: "env \<Rightarrow> byte list \<Rightarrow> error + PSDRenderResult option" where
  "try_raw_data e buffer =
    (case readPsd e buffer options_raw_data of
       Inl err \<Rightarrow> Inl err
     | Inr psd \<Rightarrow>
         (case (psd_imageData psd, psd_width psd \<noteq> 0 \<and> psd_height psd \<noteq> 0) of
            (Some pd, True) \<Rightarrow>
              (case pixelDataToCanvas e pd of
                 Inl err \<Rightarrow> Inl err
               | Inr c \<Rightarrow> Inr (Some (buildResult c raw_data psd)))
          | _ \<Rightarrow>
              (case compositeRawLayers e psd of
                 Inl err \<Rightarrow> Inl err
               | Inr None \<Rightarrow> Inr None
               | Inr (Some manual) \<Rightarrow> Inr (Some (buildResult manual raw_data psd)))))"

definition try_high_fidelity :: "env \<Rightarrow> byte list \<Rightarrow> error + PSDRenderResult option" where
  "try_high_fidelity e buffer =
    (case readPsd e buffer options_high_fidelity of
       Inl err \<Rightarrow> Inl err
     | Inr psd \<Rightarrow>
         (case psd_canvas psd of
            Some c \<Rightarrow> Inr (Some (buildResult c high_fidelity psd))
          | None \<Rightarrow>
              (case compositeCanvasLayers e psd of
                 Inl err \<Rightarrow> Inl err
               | Inr None \<Rightarrow> Inr None
               | Inr (Some manual) \<Rightarrow> Inr (Some (buildResult manual high_fidelity psd)))))"

definition try_safe_mode :: "env \<Rightarrow> byte list \<Rightarrow> error + PSDRenderResult option" where
  "try_safe_mode e buffer =
    (case readPsd e buffer options_safe_mode of
       Inl err \<Rightarrow> Inl err
     | Inr psd \<Rightarrow>
         (case psd_canvas psd of
            Some c \<Rightarrow> Inr (Some (buildResult c safe_mode psd))
          | None \<Rightarrow> Inr None))"

definition try_composite :: "env \<Rightarrow> byte list \<Rightarrow> error + PSDRenderResult option" where
  "try_composite e buffer =
    (case readPsd e buffer options_composite of
       Inl err \<Rightarrow> Inl err
     | Inr psd \<Rightarrow>
         (case psd_canvas psd of
            Some c \<Rightarrow> Inr (Some (buildResult c composite psd))
          | None \<Rightarrow> Inr None))"

text \<open>What a run does besides returning: the calls of the parser, each with the buffer
  and the options it is given, and the warnings written to the console, each with the
  exception whose message it prints.\<close>

datatype event = ReadPsd "byte list" ReadOptions | ConsoleWarn string error

text \<open>A \<open>try\<close> block with its \<open>catch\<close>: the call of the parser is logged, then the
  warning if the handler writes one. The handler of the first stage is empty.\<close>

definition stage0 :: "env \<Rightarrow> byte list \<Rightarrow> event list \<Rightarrow> PSDRenderResult option \<times> event list" where
  "stage0 e buffer evs =
    (case try_raw_data e buffer of
       Inl err \<Rightarrow> (None, evs @ [ReadPsd buffer options_raw_data])
     | Inr res \<Rightarrow> (res, evs @ [ReadPsd buffer options_raw_data]))"

definition stage1 :: "env \<Rightarrow> byte list \<Rightarrow> event list \<Rightarrow> PSDRenderResult option \<times> event list" where
  "stage1 e buffer evs =
    (case try_high_fidelity e buffer of
       Inl err \<Rightarrow>
         (None, evs @ [ReadPsd buffer options_high_fidelity, ConsoleWarn ''[PSD] Stage 1 failed:'' err])
     | Inr res \<Rightarrow> (res, evs @ [ReadPsd buffer options_high_fidelity]))"

definition stage2 :: "env \<Rightarrow> byte list \<Rightarrow> event list \<Rightarrow> PSDRenderResult option \<times> event list" where
  "stage2 e buffer evs =
    (case try_safe_mode e buffer of
       Inl err \<Rightarrow>
         (None, evs @ [ReadPsd buffer options_safe_mode, ConsoleWarn ''[PSD] Stage 2 failed:'' err])
     | Inr res \<Rightarrow> (res, evs @ [ReadPsd buffer options_safe_mode]))"

definition stage3 :: "env \<Rightarrow> byte list \<Rightarrow> event list \<Rightarrow> PSDRenderResult option \<times> event list" where
  "stage3 e buffer evs =
    (case try_composite e buffer of
       Inl err \<Rightarrow>
         (None, evs @ [ReadPsd buffer options_composite, ConsoleWarn ''[PSD] Stage 3 failed:'' err])
     | Inr res \<Rightarrow> (res, evs @ [ReadPsd buffer options_composite]))"

text \<open>The function from the buffer on (the model starts once \<open>file.arrayBuffer()\<close> has
  delivered it): the rejection or the result of the promise, and the events of the run.\<close>

definition renderPSDToCanvas :: "env \<Rightarrow> byte list \<Rightarrow> (error + PSDRenderResult) \<times> event list" where
  "renderPSDToCanvas e buffer =
    (case validate_magic buffer of
       Some err \<Rightarrow> (Inl err, [])
     | None \<Rightarrow>
         (case stage0 e buffer [] of
            (Some r, evs) \<Rightarrow> (Inr r, evs)
          | (None, evs0) \<Rightarrow>
              (case stage1 e buffer evs0 of
                 (Some r, evs) \<Rightarrow> (Inr r, evs)
               | (None, evs1) \<Rightarrow>
                   (case stage2 e buffer evs1 of
                      (Some r, evs) \<Rightarrow> (Inr r, evs)
                    | (None, evs2) \<Rightarrow>
                        (case stage3 e buffer evs2 of
                           (Some r, evs) \<Rightarrow> (Inr r, evs)
                         | (None, evs3) \<Rightarrow> (Inl unsupported_error, evs3))))))"

subsection \<open>The pipeline as the specification words it\<close>

text \<open>The specification describes the pipeline as a state machine over the four stages:
  attempt a stage; the first stage that yields a surface ends the run. The definitions
  below follow those words, for comparison with \<open>renderPSDToCanvas\<close>: the \<open>try\<close> block
  and the options of a stage, the surface a stage yields (none when it throws or returns
  nothing), the stages tried and the surface found by going through a list of stages,
  and the parser calls among the events of a run.\<close>

fun try_stage :: "env \<Rightarrow> byte list \<Rightarrow> RenderStage \<Rightarrow> error + PSDRenderResult option" where
  "try_stage e buffer raw_data = try_raw_data e buffer"
| "try_stage e buffer high_fidelity = try_high_fidelity e buffer"
| "try_stage e buffer safe_mode = try_safe_mode e buffer"
| "try_stage e buffer composite = try_composite e buffer"

fun stage_options :: "RenderStage \<Rightarrow> ReadOptions" where
  "stage_options raw_data = options_raw_data"
| "stage_options high_fidelity = options_high_fidelity"
| "stage_options safe_mode = options_safe_mode"
| "stage_options composite = options_composite"

definition surface_of :: "env \<Rightarrow> byte list \<Rightarrow> RenderStage \<Rightarrow> PSDRenderResult option" where
  "surface_of e buffer s = (case try_stage e buffer s of Inl err \<Rightarrow> None | Inr res \<Rightarrow> res)"

fun first_surface ::
  "(RenderStage \<Rightarrow> PSDRenderResult option) \<Rightarrow> RenderStage list \<Rightarrow> RenderStage list \<times> PSDRenderResult option" where
  "first_surface f [] = ([], None)"
| "first_surface f (s # ss) =
    (case f s of
       Some r \<Rightarrow> ([s], Some r)
     | None \<Rightarrow> (case first_surface f ss of (tried, res) \<Rightarrow> (s # tried, res)))"

fun parser_calls :: "event list \<Rightarrow> (byte list \<times> ReadOptions) list" where
  "parser_calls [] = []"
| "parser_calls (ReadPsd b opts # evs) = (b, opts) # parser_calls evs"
| "parser_calls (ConsoleWarn m err # evs) = parser_calls evs"

subsection \<open>The layer count as the specification words it\<close>

text \<open>The number of nodes of a layer tree, leaf layers and groups alike: a node counts
  for one, plus the nodes below it.\<close>

lemma child_smaller:
  assumes "l_children l = Some cs" and "c \<in> set cs"
  shows "size c < size l"
proof -
  have "size c \<le> size_list size cs"
    using assms(2) by (rule size_list_estimation') simp
  with assms(1) show ?thesis
    by (cases l) simp
qed

function layer_nodes :: "Layer \<Rightarrow> nat" where
  "layer_nodes l =
    1 + (case l_children l of None \<Rightarrow> 0 | Some cs \<Rightarrow> sum_list (map layer_nodes cs))"
  by pat_completeness auto
termination
  by (relation "measure size") (auto dest: child_smaller)

definition tree_nodes :: "Layer list option \<Rightarrow> nat" where
  "tree_nodes layers = (case layers of None \<Rightarrow> 0 | Some ls \<Rightarrow> sum_list (map layer_nodes ls))"

declare layer_nodes.simps [simp del]

subsection \<open>A sample environment\<close>

text \<open>For the concrete runs below: a parser that rejects every buffer, a browser that
  gives every canvas a 2D context, and an engine that grants every typed array.\<close>

definition failing_parser :: "byte list \<Rightarrow> ReadOptions \<Rightarrow> error + Psd" where
  "failing_parser b opts = Inl (Error ''Invalid signature'')"

definition every_canvas :: "HTMLCanvasElement \<Rightarrow> bool" where
  "every_canvas c = True"

definition ample_memory :: "nat \<Rightarrow> bool" where
  "ample_memory n = True"

subsection \<open>The compositors as the specification words them\<close>

text \<open>The specification describes the compositor as a walk over the siblings in reverse
  list order that skips hidden and adjustment layers, descends into groups and paints
  leaves. \<open>paint_order\<close> is the list of layers such a walk paints, first painted first;
  \<open>paint_each\<close> applies a painting step to a list of layers in turn and stops at the first
  exception; \<open>and_then\<close> runs a second computation on the context the first one returns.
  \<open>with_blendMode\<close> is a layer with its blend-mode tag replaced, and \<open>blank_context\<close> a
  context as \<open>getContext\<close> creates it, on a canvas 4 by 4.\<close>

lemma group_smaller:
  assumes "l \<in> set layers" and "l_children l = Some cs"
  shows "size_list size cs < size_list size layers"
proof -
  from assms(1) obtain n where "n < length layers" and "layers ! n = l"
    by (auto simp: in_set_conv_nth)
  with assms(2) show ?thesis
    by (auto intro: children_smaller)
qed

function paint_order :: "Layer list \<Rightarrow> Layer list" where
  "paint_order layers =
    concat (map (\<lambda>l. if l_hidden l \<or> l_adjustment l then []
                      else (case l_children l of Some cs \<Rightarrow> paint_order cs | None \<Rightarrow> [l]))
                (rev layers))"
  by pat_completeness auto
termination
  by (relation "measure (size_list size)") (auto dest: group_smaller)

declare paint_order.simps [simp del]

fun paint_each ::
  "(Layer \<Rightarrow> CanvasRenderingContext2D \<Rightarrow> error + CanvasRenderingContext2D) \<Rightarrow> Layer list \<Rightarrow>
     CanvasRenderingContext2D \<Rightarrow> error + CanvasRenderingContext2D" where
  "paint_each p [] ctx = Inr ctx"
| "paint_each p (l # ls) ctx = (case p l ctx of Inl err \<Rightarrow> Inl err | Inr ctx' \<Rightarrow> paint_each p ls ctx')"

definition and_then :: "error + 'a \<Rightarrow> ('a \<Rightarrow> error + 'b) \<Rightarrow> error + 'b" where
  "and_then r f = (case r of Inl err \<Rightarrow> Inl err | Inr x \<Rightarrow> f x)"

definition with_blendMode :: "string \<Rightarrow> Layer \<Rightarrow> Layer" where
  "with_blendMode tag l =
    Layer (l_hidden l) (l_adjustment l) (l_children l) (l_imageData l) (l_canvas l)
      (l_opacity l) (Some tag) (l_left l) (l_top l)"

definition blank_context :: CanvasRenderingContext2D where
  "blank_context =
    \<lparr>ctx_canvas = Canvas 4 4 [], globalAlpha = 1, globalCompositeOperation = ''source-over'',
     ctx_saved = []\<rparr>"

section \<open>Properties\<close>

subsection \<open>The magic number\<close>

lemma base256_digits:
  fixes c d c' d' :: nat
  assumes "d < 256" "d' < 256" "c * 256 + d = c' * 256 + d'"
  shows "c = c' \<and> d = d'"
proof -
  have "(c * 256 + d) mod 256 = (c' * 256 + d') mod 256"
    and "(c * 256 + d) div 256 = (c' * 256 + d') div 256"
    by (simp_all only: assms(3))
  with assms(1,2) show ?thesis by simp
qed

lemma be32_nat:
  fixes a b c d :: nat
  assumes "b < 256" "c < 256" "d < 256" "b' < 256" "c' < 256" "d' < 256"
    and "a * 2 ^ 24 + b * 2 ^ 16 + c * 2 ^ 8 + d = a' * 2 ^ 24 + b' * 2 ^ 16 + c' * 2 ^ 8 + d'"
  shows "a = a' \<and> b = b' \<and> c = c' \<and> d = d'"
proof -
  have "((a * 256 + b) * 256 + c) * 256 + d = ((a' * 256 + b') * 256 + c') * 256 + d'"
    using assms(7) by simp
  then have 1: "(a * 256 + b) * 256 + c = (a' * 256 + b') * 256 + c'" and "d = d'"
    using base256_digits [OF \<open>d < 256\<close> \<open>d' < 256\<close>] by blast+
  then have 2: "a * 256 + b = a' * 256 + b'" and "c = c'"
    using base256_digits [OF \<open>c < 256\<close> \<open>c' < 256\<close>] by blast+
  then have "a = a'" and "b = b'"
    using base256_digits [OF \<open>b < 256\<close> \<open>b' < 256\<close>] by blast+
  with \<open>c = c'\<close> \<open>d = d'\<close> show ?thesis by simp
qed

lemma byte_bound: "unat (a::byte) < 256"
  using unsigned_less [of a, where 'a = nat] by simp

lemma be32_bytes:
  fixes a b c d a' b' c' d' :: byte
  shows "unat a * 2 ^ 24 + unat b * 2 ^ 16 + unat c * 2 ^ 8 + unat d
           = unat a' * 2 ^ 24 + unat b' * 2 ^ 16 + unat c' * 2 ^ 8 + unat d'
         \<longleftrightarrow> a = a' \<and> b = b' \<and> c = c' \<and> d = d'"
  using be32_nat [of "unat b" "unat c" "unat d" "unat b'" "unat c'" "unat d'" "unat a" "unat a'"]
  by (auto simp only: byte_bound word_unat_eq_iff)

lemma take4:
  "4 \<le> length b \<Longrightarrow> take 4 b = [b ! 0, b ! 1, b ! 2, b ! 3]"
  by (auto simp: list_eq_iff_nth_eq nth_Cons' numeral_eq_Suc less_Suc_eq)

lemma getUint32_bytes:
  assumes "4 \<le> length b"
  shows "getUint32 b = Inr (unat x * 2 ^ 24 + unat y * 2 ^ 16 + unat z * 2 ^ 8 + unat (w::byte))
     \<longleftrightarrow> take 4 b = [x, y, z, w]"
  using assms be32_bytes [of "b ! 0" "b ! 1" "b ! 2" "b ! 3" x y z w]
  by (simp add: getUint32_def take4)

lemma getUint32_pdf:
  "4 \<le> length b \<Longrightarrow> getUint32 b = Inr 0x25504446 \<longleftrightarrow> take 4 b = [0x25, 0x50, 0x44, 0x46]"
  using getUint32_bytes [of b "0x25" "0x50" "0x44" "0x46"] by simp

lemma getUint32_psd:
  "4 \<le> length b \<Longrightarrow> getUint32 b = Inr 0x38425053 \<longleftrightarrow> take 4 b = [0x38, 0x42, 0x50, 0x53]"
  using getUint32_bytes [of b "0x38" "0x42" "0x50" "0x53"] by simp

lemma validate_magic_long:
  assumes "4 \<le> length b"
  shows "validate_magic b =
    (if take 4 b = [0x25, 0x50, 0x44, 0x46] then Some pdf_error
     else if take 4 b \<noteq> [0x38, 0x42, 0x50, 0x53] then Some not_psd_error
     else None)"
proof (cases "getUint32 b")
  case (Inl err)
  with assms show ?thesis by (simp add: getUint32_def)
next
  case (Inr sig)
  with assms getUint32_pdf [of b] getUint32_psd [of b] show ?thesis
    by (simp add: validate_magic_def)
qed

lemma validate_magic_short: "length b < 4 \<Longrightarrow> validate_magic b = None"
  by (simp add: validate_magic_def)


text \<open>
  C2. For a buffer of at least four bytes the magic number is validated before any stage
  runs: when the first four bytes are the PDF signature \<open>25 50 44 46\<close>, the run fails with
  the wrong-tool error, and when they are neither the PDF nor the PSD signature
  \<open>38 42 50 53\<close>, it fails with the error "Not a valid PSD file."; in both cases no event
  has taken place, so the parser has not been called.
\<close>

theorem magic_number_validated_first:
  assumes "4 \<le> length buffer"
  shows "(take 4 buffer = [0x25, 0x50, 0x44, 0x46] \<longrightarrow>
            renderPSDToCanvas e buffer =
              (Inl (Error ''This is a PDF file. Use the PDF Viewer tool.''), []))
       \<and> (take 4 buffer \<noteq> [0x25, 0x50, 0x44, 0x46] \<and> take 4 buffer \<noteq> [0x38, 0x42, 0x50, 0x53] \<longrightarrow>
            renderPSDToCanvas e buffer = (Inl (Error ''Not a valid PSD file.''), []))"
  using assms
  by (simp add: renderPSDToCanvas_def validate_magic_long pdf_error_def not_psd_error_def)

theorem magic_number_validated_first_witness:
  "renderPSDToCanvas \<lparr>readPsd = (\<lambda>b opts. Inl (Error ''truncated'')), context2d_available = (\<lambda>c. True),
      can_allocate = (\<lambda>n. True)\<rparr>
       [0x25, 0x50, 0x44, 0x46, 0x2D]
     = (Inl (Error ''This is a PDF file. Use the PDF Viewer tool.''), [])
   \<and> renderPSDToCanvas \<lparr>readPsd = (\<lambda>b opts. Inl (Error ''truncated'')), context2d_available = (\<lambda>c. True),
      can_allocate = (\<lambda>n. True)\<rparr>
       [0x47, 0x49, 0x46, 0x38]
     = (Inl (Error ''Not a valid PSD file.''), [])"
  using magic_number_validated_first
          [of "[0x25, 0x50, 0x44, 0x46, 0x2D]"
              "\<lparr>readPsd = (\<lambda>b opts. Inl (Error ''truncated'')), context2d_available = (\<lambda>c. True),
      can_allocate = (\<lambda>n. True)\<rparr>"]
        magic_number_validated_first
          [of "[0x47, 0x49, 0x46, 0x38]"
              "\<lparr>readPsd = (\<lambda>b opts. Inl (Error ''truncated'')), context2d_available = (\<lambda>c. True),
      can_allocate = (\<lambda>n. True)\<rparr>"]
  by simp

subsection \<open>The four stages\<close>

text \<open>With its handler, each stage is the surface of its \<open>try\<close> block and one call of the
  parser on the buffer, followed by warnings only.\<close>

lemma stage_identity:
  "surface_of e buffer s = Some r \<Longrightarrow> r_stage r = s"
  by (cases s)
     (auto simp: surface_of_def try_raw_data_def try_high_fidelity_def try_safe_mode_def
        try_composite_def buildResult_def
        split: sum.splits option.splits prod.splits bool.splits)

lemma stage0_surface:
  "stage0 e buffer evs = (surface_of e buffer raw_data, evs @ [ReadPsd buffer options_raw_data])"
  by (simp add: stage0_def surface_of_def split: sum.splits)

lemma stage1_surface:
  "\<exists>w. stage1 e buffer evs = (surface_of e buffer high_fidelity, evs @ ReadPsd buffer options_high_fidelity # w)
     \<and> parser_calls w = [] \<and> (surface_of e buffer high_fidelity \<noteq> None \<longrightarrow> w = [])"
  by (auto simp add: stage1_def surface_of_def split: sum.splits)

lemma stage2_surface:
  "\<exists>w. stage2 e buffer evs = (surface_of e buffer safe_mode, evs @ ReadPsd buffer options_safe_mode # w)
     \<and> parser_calls w = [] \<and> (surface_of e buffer safe_mode \<noteq> None \<longrightarrow> w = [])"
  by (auto simp add: stage2_def surface_of_def split: sum.splits)

lemma stage3_surface:
  "\<exists>w. stage3 e buffer evs = (surface_of e buffer composite, evs @ ReadPsd buffer options_composite # w)
     \<and> parser_calls w = [] \<and> (surface_of e buffer composite \<noteq> None \<longrightarrow> w = [])"
  by (auto simp add: stage3_def surface_of_def split: sum.splits)

lemma parser_calls_append: "parser_calls (xs @ ys) = parser_calls xs @ parser_calls ys"
  by (induction xs rule: parser_calls.induct) simp_all

lemma pipeline_run:
  assumes "validate_magic buffer = None"
  shows "\<exists>evs. renderPSDToCanvas e buffer =
           ((case snd (first_surface (surface_of e buffer) [raw_data, high_fidelity, safe_mode, composite]) of
               Some r \<Rightarrow> Inr r | None \<Rightarrow> Inl unsupported_error), evs)
         \<and> parser_calls evs =
             map (\<lambda>s. (buffer, stage_options s))
               (fst (first_surface (surface_of e buffer) [raw_data, high_fidelity, safe_mode, composite]))"
proof -
  obtain w1 where s1: "stage1 e buffer [ReadPsd buffer options_raw_data] =
      (surface_of e buffer high_fidelity, [ReadPsd buffer options_raw_data] @ ReadPsd buffer options_high_fidelity # w1)"
    and w1: "parser_calls w1 = []"
    using stage1_surface by blast
  obtain w2 where s2: "stage2 e buffer ([ReadPsd buffer options_raw_data] @ ReadPsd buffer options_high_fidelity # w1) =
      (surface_of e buffer safe_mode, ([ReadPsd buffer options_raw_data] @ ReadPsd buffer options_high_fidelity # w1) @ ReadPsd buffer options_safe_mode # w2)"
    and w2: "parser_calls w2 = []"
    using stage2_surface by blast
  obtain w3 where s3: "stage3 e buffer (([ReadPsd buffer options_raw_data] @ ReadPsd buffer options_high_fidelity # w1) @ ReadPsd buffer options_safe_mode # w2) =
      (surface_of e buffer composite, (([ReadPsd buffer options_raw_data] @ ReadPsd buffer options_high_fidelity # w1) @ ReadPsd buffer options_safe_mode # w2) @ ReadPsd buffer options_composite # w3)"
    and w3: "parser_calls w3 = []"
    using stage3_surface by blast
  show ?thesis
    using assms s1 s2 s3 w1 w2 w3
    by (simp add: renderPSDToCanvas_def stage0_surface parser_calls_append split: option.splits)
qed

lemma first_surface_tried:
  "first_surface f ss = (tried, Some r) \<Longrightarrow> tried \<noteq> []"
  by (cases ss) (auto split: option.splits prod.splits)

lemma first_surface_last:
  "snd (first_surface f ss) = Some r \<Longrightarrow> f (last (fst (first_surface f ss))) = Some r"
  by (induction ss) (auto split: option.splits prod.splits dest: first_surface_tried)


lemma first_surface_none_tried:
  "snd (first_surface f ss) = None \<Longrightarrow> fst (first_surface f ss) = ss"
  by (induction ss) (auto split: option.splits prod.splits)






text \<open>
  C8. A buffer shorter than four bytes is not validated: the magic-number block throws
  nothing, so neither the error "Not a valid PSD file." nor the wrong-tool error can be the
  outcome; and when the run fails, it fails with the unsupported-structure error after the
  parser was called for all four stages.
\<close>

theorem short_buffer_skips_magic:
  assumes "length buffer < 4"
  shows "validate_magic buffer = None
    \<and> fst (renderPSDToCanvas e buffer) \<noteq> Inl (Error ''Not a valid PSD file.'')
    \<and> fst (renderPSDToCanvas e buffer) \<noteq> Inl (Error ''This is a PDF file. Use the PDF Viewer tool.'')
    \<and> (\<forall>err evs. renderPSDToCanvas e buffer = (Inl err, evs) \<longrightarrow>
          err = unsupported_error
        \<and> parser_calls evs =
            [(buffer, options_raw_data), (buffer, options_high_fidelity),
             (buffer, options_safe_mode), (buffer, options_composite)])"
proof -
  let ?run = "first_surface (surface_of e buffer) [raw_data, high_fidelity, safe_mode, composite]"
  have magic: "validate_magic buffer = None"
    using assms by (rule validate_magic_short)
  from pipeline_run [OF magic, of e] obtain evs where
    run: "renderPSDToCanvas e buffer = ((case snd ?run of Some r \<Rightarrow> Inr r | None \<Rightarrow> Inl unsupported_error), evs)"
    and calls: "parser_calls evs = map (\<lambda>s. (buffer, stage_options s)) (fst ?run)"
    by blast
  show ?thesis
  proof (cases "snd ?run")
    case None
    then have "fst ?run = [raw_data, high_fidelity, safe_mode, composite]"
      by (rule first_surface_none_tried)
    with None run calls magic show ?thesis
      by (simp add: unsupported_error_def)
  next
    case (Some r)
    with run magic show ?thesis
      by simp
  qed
qed

theorem short_buffer_skips_magic_witness:
  "length [0x38, 0x42 :: byte] < 4
   \<and> renderPSDToCanvas \<lparr>readPsd = (\<lambda>b opts. Inl (Error ''truncated'')),
                        context2d_available = (\<lambda>c. True),
      can_allocate = (\<lambda>n. True)\<rparr> [0x38, 0x42]
     = (Inl unsupported_error,
        [ReadPsd [0x38, 0x42] options_raw_data,
         ReadPsd [0x38, 0x42] options_high_fidelity,
         ConsoleWarn ''[PSD] Stage 1 failed:'' (Error ''truncated''),
         ReadPsd [0x38, 0x42] options_safe_mode,
         ConsoleWarn ''[PSD] Stage 2 failed:'' (Error ''truncated''),
         ReadPsd [0x38, 0x42] options_composite,
         ConsoleWarn ''[PSD] Stage 3 failed:'' (Error ''truncated'')])
   \<and> parser_calls
        [ReadPsd [0x38, 0x42] options_raw_data,
         ReadPsd [0x38, 0x42] options_high_fidelity,
         ConsoleWarn ''[PSD] Stage 1 failed:'' (Error ''truncated''),
         ReadPsd [0x38, 0x42] options_safe_mode,
         ConsoleWarn ''[PSD] Stage 2 failed:'' (Error ''truncated''),
         ReadPsd [0x38, 0x42] options_composite,
         ConsoleWarn ''[PSD] Stage 3 failed:'' (Error ''truncated'')]
     = [([0x38, 0x42], options_raw_data), ([0x38, 0x42], options_high_fidelity),
        ([0x38, 0x42], options_safe_mode), ([0x38, 0x42], options_composite)]"
proof -
  let ?e = "\<lparr>readPsd = (\<lambda>b opts. Inl (Error ''truncated'')), context2d_available = (\<lambda>c. True),
      can_allocate = (\<lambda>n. True)\<rparr>"
  have run: "renderPSDToCanvas ?e [0x38, 0x42]
     = (Inl unsupported_error,
        [ReadPsd [0x38, 0x42] options_raw_data,
         ReadPsd [0x38, 0x42] options_high_fidelity,
         ConsoleWarn ''[PSD] Stage 1 failed:'' (Error ''truncated''),
         ReadPsd [0x38, 0x42] options_safe_mode,
         ConsoleWarn ''[PSD] Stage 2 failed:'' (Error ''truncated''),
         ReadPsd [0x38, 0x42] options_composite,
         ConsoleWarn ''[PSD] Stage 3 failed:'' (Error ''truncated'')])"
    by (simp add: renderPSDToCanvas_def validate_magic_def stage0_def stage1_def stage2_def stage3_def
          try_raw_data_def try_high_fidelity_def try_safe_mode_def try_composite_def)
  show ?thesis
    using run short_buffer_skips_magic [of "[0x38, 0x42]" ?e]
    by simp
qed

subsection \<open>The layer count\<close>

lemma fold_count:
  fixes g :: "'a \<Rightarrow> nat"
  shows "fold (\<lambda>l n. n + 1 + g l) ls a = a + sum_list (map (\<lambda>l. 1 + g l) ls)"
  by (induction ls arbitrary: a) simp_all

lemma countLayers_tree_nodes: "countLayers layers = tree_nodes layers"
proof (induction layers rule: countLayers.induct)
  case 1
  show ?case by (simp add: tree_nodes_def)
next
  case (2 layers)
  have same: "map (\<lambda>l. 1 + countLayers (l_children l)) layers = map layer_nodes layers"
  proof (rule map_cong [OF refl])
    fix l assume "l \<in> set layers"
    then have "countLayers (l_children l) = tree_nodes (l_children l)"
      by (rule "2.IH")
    then show "1 + countLayers (l_children l) = layer_nodes l"
      by (simp add: layer_nodes.simps [of l] tree_nodes_def)
  qed
  have "countLayers (Some layers) = 0 + sum_list (map (\<lambda>l. 1 + countLayers (l_children l)) layers)"
    by (simp only: countLayers.simps fold_count)
  also have "\<dots> = sum_list (map layer_nodes layers)"
    by (simp only: same add_0)
  finally show ?case
    by (simp add: tree_nodes_def)
qed

lemma surface_parse:
  "surface_of e buffer s = Some r \<Longrightarrow>
     \<exists>psd. readPsd e buffer (stage_options s) = Inr psd \<and> r_layerCount r = countLayers (psd_children psd)"
  by (cases s)
     (auto simp: surface_of_def try_raw_data_def try_high_fidelity_def try_safe_mode_def
        try_composite_def buildResult_def
        split: sum.splits option.splits prod.splits bool.splits)

lemma render_result_surface:
  assumes "renderPSDToCanvas e buffer = (Inr r, evs)"
  shows "surface_of e buffer (r_stage r) = Some r"
proof -
  let ?run = "first_surface (surface_of e buffer) [raw_data, high_fidelity, safe_mode, composite]"
  have magic: "validate_magic buffer = None"
    using assms by (cases "validate_magic buffer") (simp_all add: renderPSDToCanvas_def)
  from pipeline_run [OF magic, of e] assms have found: "snd ?run = Some r"
    by (auto split: option.splits)
  then have "surface_of e buffer (last (fst ?run)) = Some r"
    by (rule first_surface_last)
  moreover from this have "r_stage r = last (fst ?run)"
    by (rule stage_identity)
  ultimately show ?thesis by simp
qed

text \<open>
  C3. The \<open>layerCount\<close> of a result is the number of nodes, leaves and groups, of the layer
  tree of the document it is built from; for the result of a run, that document is the one
  the parser returned for the stage the result names. The count is made by \<open>countLayers\<close>,
  which no compositor calls.
\<close>

theorem layerCount_counts_all_nodes:
  "r_layerCount (buildResult canvas stage psd) = tree_nodes (psd_children psd)
   \<and> (\<forall>r evs. renderPSDToCanvas e buffer = (Inr r, evs) \<longrightarrow>
        (\<exists>psd. readPsd e buffer (stage_options (r_stage r)) = Inr psd
               \<and> r_layerCount r = tree_nodes (psd_children psd)))"
proof -
  have "\<exists>psd. readPsd e buffer (stage_options (r_stage r)) = Inr psd
               \<and> r_layerCount r = tree_nodes (psd_children psd)"
    if "renderPSDToCanvas e buffer = (Inr r, evs)" for r evs
    using surface_parse [OF render_result_surface [OF that]]
    by (simp add: countLayers_tree_nodes)
  then show ?thesis
    by (simp add: buildResult_def countLayers_tree_nodes)
qed

theorem layerCount_counts_all_nodes_witness:
  "renderPSDToCanvas
     \<lparr>readPsd = (\<lambda>b opts.
        Inr \<lparr>psd_width = 4, psd_height = 4,
             psd_children = Some
               [Layer False False (Some [Layer True False None None None None None None None])
                  None None None None None None,
                Layer False False None None None None None None None],
             psd_imageData = None, psd_canvas = Some (Canvas 4 4 [])\<rparr>),
      context2d_available = (\<lambda>c. False),
      can_allocate = (\<lambda>n. True)\<rparr>
     [0x38, 0x42, 0x50, 0x53]
   = (Inr \<lparr>r_canvas = Canvas 4 4 [], r_stage = high_fidelity, r_layerCount = 3,
            r_width = 4, r_height = 4\<rparr>,
      [ReadPsd [0x38, 0x42, 0x50, 0x53] options_raw_data,
       ReadPsd [0x38, 0x42, 0x50, 0x53] options_high_fidelity])
   \<and> tree_nodes (Some
         [Layer False False (Some [Layer True False None None None None None None None])
            None None None None None None,
          Layer False False None None None None None None None]) = 3"
proof -
  let ?ls = "[Layer False False (Some [Layer True False None None None None None None None])
                None None None None None None,
              Layer False False None None None None None None None]"
  let ?psd = "\<lparr>psd_width = 4, psd_height = 4, psd_children = Some ?ls,
               psd_imageData = None, psd_canvas = Some (Canvas 4 4 [])\<rparr>"
  let ?e = "\<lparr>readPsd = (\<lambda>b opts. Inr ?psd), context2d_available = (\<lambda>c. False),
      can_allocate = (\<lambda>n. True)\<rparr>"
  let ?r = "\<lparr>r_canvas = Canvas 4 4 [], r_stage = high_fidelity, r_layerCount = 3,
             r_width = 4, r_height = 4\<rparr>"
  have run: "renderPSDToCanvas ?e [0x38, 0x42, 0x50, 0x53]
      = (Inr ?r, [ReadPsd [0x38, 0x42, 0x50, 0x53] options_raw_data,
                  ReadPsd [0x38, 0x42, 0x50, 0x53] options_high_fidelity])"
    by (simp add: renderPSDToCanvas_def validate_magic_long stage0_def stage1_def
          try_raw_data_def try_high_fidelity_def compositeRawLayers_def getContext_def
          createCanvas_def buildResult_def)
  from layerCount_counts_all_nodes [of _ _ _ ?e "[0x38, 0x42, 0x50, 0x53]"] run
  have "\<exists>psd. readPsd ?e [0x38, 0x42, 0x50, 0x53] (stage_options (r_stage ?r)) = Inr psd
              \<and> r_layerCount ?r = tree_nodes (psd_children psd)"
    by blast
  then have "tree_nodes (Some ?ls) = 3"
    by simp
  with run show ?thesis
    by simp
qed

subsection \<open>pixelDataToCanvas\<close>

lemma reflect_dimension_small:
  "v \<le> 2147483647 \<Longrightarrow> reflect_dimension dflt v = v"
  by (simp add: reflect_dimension_def)

lemma createCanvas_small:
  "w \<le> 2147483647 \<Longrightarrow> h \<le> 2147483647 \<Longrightarrow> createCanvas w h = Canvas w h []"
  by (simp add: createCanvas_def reflect_dimension_small)

lemma new_ImageData_exact:
  assumes "0 < w" and "0 < h" and "w \<le> 2147483647" and "h \<le> 2147483647"
    and "length d = w * h * 4"
  shows "new_ImageData d w h = Inr \<lparr>id_data = d, id_width = w, id_height = h\<rparr>"
  using assms by (simp add: new_ImageData_def)

text \<open>
  Three records for which the function does not return a canvas of the declared size, in
  a browser that provides the context and an engine that grants every array. Width and
  height zero with one byte of data: the buffer has length zero, the byte is cut off, and
  \<open>new ImageData\<close> throws for the empty buffer. Width 2147483648 with no data: the canvas is
  returned, 300 wide. Width and height 2147483647 with one byte of data: the length of the
  buffer is beyond \<open>2^53 - 1\<close> and \<open>new Uint8ClampedArray\<close> throws a \<open>RangeError\<close>.
\<close>

theorem pixelDataToCanvas_not_total_counterexample:
  "pixelDataToCanvas
      \<lparr>readPsd = failing_parser, context2d_available = every_canvas, can_allocate = ample_memory\<rparr>
      \<lparr>pd_data = \<lparr>ta_buffer = [1], ta_length = 1\<rparr>, pd_width = 0, pd_height = 0\<rparr>
     = Inl DOMException
   \<and> pixelDataToCanvas
      \<lparr>readPsd = failing_parser, context2d_available = every_canvas, can_allocate = ample_memory\<rparr>
      \<lparr>pd_data = \<lparr>ta_buffer = [], ta_length = 0\<rparr>, pd_width = 2147483648, pd_height = 1\<rparr>
     = Inr (Canvas 300 1 [])
   \<and> pixelDataToCanvas
      \<lparr>readPsd = failing_parser, context2d_available = every_canvas, can_allocate = ample_memory\<rparr>
      \<lparr>pd_data = \<lparr>ta_buffer = [1], ta_length = 1\<rparr>, pd_width = 2147483647, pd_height = 2147483647\<rparr>
     = Inl RangeError"
  by (simp add: pixelDataToCanvas_def getContext_def createCanvas_def reflect_dimension_def
        every_canvas_def ample_memory_def new_Uint8ClampedArray_def typed_array_set_def
        new_ImageData_def)

text \<open>
  C9, amended. Take a pixel-data record whose width and height are at most 2147483647,
  and whose data is empty or else whose width and height are positive and whose
  \<open>width * height * 4\<close> bytes are at most \<open>2^53 - 1\<close> and granted by the engine. Then
  \<open>pixelDataToCanvas\<close> returns a canvas of exactly the declared width and height and
  raises nothing. With a context and non-empty data the canvas received one image of
  \<open>width * height * 4\<close> bytes: the bytes of the data's buffer cut to that length when
  there are more, followed by zero bytes up to that length when there are fewer. With
  empty data, or without a context, nothing was written to the canvas.
\<close>

theorem pixelDataToCanvas_fits_data:
  assumes "pd_width pd \<le> 2147483647" and "pd_height pd \<le> 2147483647"
    and "ta_length (pd_data pd) = 0
       \<or> (0 < pd_width pd \<and> 0 < pd_height pd
          \<and> pd_width pd * pd_height pd * 4 \<le> 9007199254740991
          \<and> can_allocate e (pd_width pd * pd_height pd * 4))"
  shows "pixelDataToCanvas e pd =
    Inr (Canvas (pd_width pd) (pd_height pd)
          (if context2d_available e (Canvas (pd_width pd) (pd_height pd) [])
              \<and> ta_length (pd_data pd) \<noteq> 0
           then [PutImageData
                   \<lparr>id_data = take (pd_width pd * pd_height pd * 4) (ta_buffer (pd_data pd))
                                @ replicate (pd_width pd * pd_height pd * 4
                                              - length (ta_buffer (pd_data pd))) 0,
                    id_width = pd_width pd, id_height = pd_height pd\<rparr> 0 0]
           else []))"
proof (cases "context2d_available e (Canvas (pd_width pd) (pd_height pd) [])
              \<and> ta_length (pd_data pd) \<noteq> 0")
  case True
  with assms(3) have "0 < pd_width pd" "0 < pd_height pd"
    and "new_Uint8ClampedArray e (pd_width pd * pd_height pd * 4)
           = Inr (replicate (pd_width pd * pd_height pd * 4) 0)"
    by (simp_all add: new_Uint8ClampedArray_def)
  with True assms(1,2) show ?thesis
    by (simp add: pixelDataToCanvas_def getContext_def createCanvas_small putImageData_def
          typed_array_set_def new_ImageData_exact Let_def)
next
  case False
  with assms(1,2) show ?thesis
    by (auto simp: pixelDataToCanvas_def getContext_def createCanvas_small Let_def)
qed

theorem pixelDataToCanvas_fits_data_witness:
  "pixelDataToCanvas
      \<lparr>readPsd = failing_parser, context2d_available = every_canvas, can_allocate = ample_memory\<rparr>
      \<lparr>pd_data = \<lparr>ta_buffer = [1, 2, 3, 4, 5], ta_length = 5\<rparr>, pd_width = 1, pd_height = 1\<rparr>
     = Inr (Canvas 1 1 [PutImageData \<lparr>id_data = [1, 2, 3, 4], id_width = 1, id_height = 1\<rparr> 0 0])
   \<and> pixelDataToCanvas
      \<lparr>readPsd = failing_parser, context2d_available = every_canvas, can_allocate = ample_memory\<rparr>
      \<lparr>pd_data = \<lparr>ta_buffer = [9, 8, 7], ta_length = 3\<rparr>, pd_width = 2, pd_height = 1\<rparr>
     = Inr (Canvas 2 1
             [PutImageData \<lparr>id_data = [9, 8, 7, 0, 0, 0, 0, 0], id_width = 2, id_height = 1\<rparr> 0 0])
   \<and> pixelDataToCanvas
      \<lparr>readPsd = failing_parser, context2d_available = every_canvas, can_allocate = ample_memory\<rparr>
      \<lparr>pd_data = \<lparr>ta_buffer = [], ta_length = 0\<rparr>, pd_width = 0, pd_height = 3\<rparr>
     = Inr (Canvas 0 3 [])"
proof -
  let ?e = "\<lparr>readPsd = failing_parser, context2d_available = every_canvas, can_allocate = ample_memory\<rparr>"
  have pad: "replicate 5 (0::byte) = [0, 0, 0, 0, 0]"
    by (simp add: numeral_eq_Suc)
  have cut: "take 4 [1, 2, 3, 4, 5 :: byte] = [1, 2, 3, 4]"
    by simp
  from pixelDataToCanvas_fits_data
          [of "\<lparr>pd_data = \<lparr>ta_buffer = [1, 2, 3, 4, 5], ta_length = 5\<rparr>, pd_width = 1, pd_height = 1\<rparr>" ?e]
  have longer: "pixelDataToCanvas ?e
      \<lparr>pd_data = \<lparr>ta_buffer = [1, 2, 3, 4, 5], ta_length = 5\<rparr>, pd_width = 1, pd_height = 1\<rparr>
     = Inr (Canvas 1 1 [PutImageData \<lparr>id_data = [1, 2, 3, 4], id_width = 1, id_height = 1\<rparr> 0 0])"
    by (simp add: every_canvas_def ample_memory_def cut)
  from pixelDataToCanvas_fits_data
          [of "\<lparr>pd_data = \<lparr>ta_buffer = [9, 8, 7], ta_length = 3\<rparr>, pd_width = 2, pd_height = 1\<rparr>" ?e]
  have shorter: "pixelDataToCanvas ?e
      \<lparr>pd_data = \<lparr>ta_buffer = [9, 8, 7], ta_length = 3\<rparr>, pd_width = 2, pd_height = 1\<rparr>
     = Inr (Canvas 2 1
             [PutImageData \<lparr>id_data = [9, 8, 7, 0, 0, 0, 0, 0], id_width = 2, id_height = 1\<rparr> 0 0])"
    by (simp add: every_canvas_def ample_memory_def pad)
  from pixelDataToCanvas_fits_data
          [of "\<lparr>pd_data = \<lparr>ta_buffer = [], ta_length = 0\<rparr>, pd_width = 0, pd_height = 3\<rparr>" ?e]
  have empty: "pixelDataToCanvas ?e
      \<lparr>pd_data = \<lparr>ta_buffer = [], ta_length = 0\<rparr>, pd_width = 0, pd_height = 3\<rparr>
     = Inr (Canvas 0 3 [])"
    by simp
  from longer shorter empty show ?thesis
    by (intro conjI)
qed

subsection \<open>The manual compositors\<close>

text \<open>Each loop paints the layers of \<open>paint_order\<close>, in that order, with its own painting
  step; the laws of the two functions follow from this.\<close>

lemma paint_order_Nil [simp]: "paint_order [] = []"
  by (simp add: paint_order.simps)

lemma paint_order_append: "paint_order (xs @ ys) = paint_order ys @ paint_order xs"
  by (simp add: paint_order.simps [of "xs @ ys"] paint_order.simps [of xs] paint_order.simps [of ys])

lemma paint_order_single:
  "paint_order [l] =
    (if l_hidden l \<or> l_adjustment l then []
     else (case l_children l of Some cs \<Rightarrow> paint_order cs | None \<Rightarrow> [l]))"
  by (simp add: paint_order.simps [of "[l]"])

lemma paint_each_append:
  "paint_each p (xs @ ys) ctx = and_then (paint_each p xs ctx) (paint_each p ys)"
  by (induction xs arbitrary: ctx) (simp_all add: and_then_def split: sum.splits)

declare renderLayersCanvas_loop.simps [simp del] renderLayersRaw_loop.simps [simp del]

lemma renderLayersCanvas_loop_paint:
  "i < int (length layers) \<Longrightarrow>
     renderLayersCanvas_loop layers i ctx
       = paint_each paintCanvas (paint_order (take (nat (i + 1)) layers)) ctx"
proof (induction layers i ctx rule: renderLayersCanvas_loop.induct)
  case (1 layers i ctx)
  show ?case
  proof (cases "0 \<le> i")
    case False
    then show ?thesis
      by (simp add: renderLayersCanvas_loop.simps [of layers i])
  next
    case True
    define l where "l = layers ! nat i"
    from True "1.prems" have inside: "nat i < length layers"
      by simp
    from True have idx: "nat (i + 1) = Suc (nat i)" "nat (i - 1 + 1) = nat i"
      by simp_all
    have split: "paint_order (take (nat (i + 1)) layers)
        = paint_order [l] @ paint_order (take (nat i) layers)"
      using inside by (simp add: idx take_Suc_conv_app_nth paint_order_append l_def)
    from "1.prems" have below: "i - 1 < int (length layers)"
      by simp
    show ?thesis
    proof (cases "l_hidden l \<or> l_adjustment l")
      case skipped: True
      with True inside have "renderLayersCanvas_loop layers i ctx = renderLayersCanvas_loop layers (i - 1) ctx"
        by (simp add: renderLayersCanvas_loop.simps [of layers i] l_def)
      also have "\<dots> = paint_each paintCanvas (paint_order (take (nat i) layers)) ctx"
        using "1.IH"(1) [OF True inside l_def skipped below] by (simp add: idx)
      finally show ?thesis
        using skipped by (simp add: split paint_order_single)
    next
      case visible: False
      show ?thesis
      proof (cases "l_children l")
        case (Some cs)
        have inner: "renderLayersCanvas_loop cs (int (length cs) - 1) ctx
            = paint_each paintCanvas (paint_order cs) ctx"
          using "1.IH"(3) [OF True inside l_def visible Some] by simp
        have outer: "renderLayersCanvas_loop layers (i - 1) ctx'
            = paint_each paintCanvas (paint_order (take (nat i) layers)) ctx'"
          if "renderLayersCanvas_loop cs (int (length cs) - 1) ctx = Inr ctx'" for ctx'
          using "1.IH"(4) [OF True inside l_def visible Some that below] by (simp add: idx)
        have "renderLayersCanvas_loop layers i ctx
            = and_then (renderLayersCanvas_loop cs (int (length cs) - 1) ctx)
                (renderLayersCanvas_loop layers (i - 1))"
          using True inside visible Some
          by (simp add: renderLayersCanvas_loop.simps [of layers i] l_def [symmetric] and_then_def)
        also have "\<dots> = and_then (paint_each paintCanvas (paint_order cs) ctx)
                (paint_each paintCanvas (paint_order (take (nat i) layers)))"
          using outer by (auto simp: and_then_def inner [symmetric] split: sum.splits)
        finally show ?thesis
          using visible Some by (simp add: split paint_order_single paint_each_append)
      next
        case None
        have outer: "renderLayersCanvas_loop layers (i - 1) ctx'
            = paint_each paintCanvas (paint_order (take (nat i) layers)) ctx'"
          if "paintCanvas l ctx = Inr ctx'" for ctx'
          using "1.IH"(2) [OF True inside l_def visible None that below] by (simp add: idx)
        have "renderLayersCanvas_loop layers i ctx
            = and_then (paintCanvas l ctx) (renderLayersCanvas_loop layers (i - 1))"
          using True inside visible None
          by (simp add: renderLayersCanvas_loop.simps [of layers i] l_def [symmetric] and_then_def)
        also have "\<dots> = and_then (paintCanvas l ctx)
                (paint_each paintCanvas (paint_order (take (nat i) layers)))"
          using outer by (auto simp: and_then_def split: sum.splits)
        finally show ?thesis
          using visible None by (simp add: split paint_order_single and_then_def)
      qed
    qed
  qed
qed

lemma renderLayersCanvas_paint_order:
  "renderLayersCanvas ctx layers = paint_each paintCanvas (paint_order layers) ctx"
  using renderLayersCanvas_loop_paint [of "int (length layers) - 1" layers ctx]
  by (simp add: renderLayersCanvas_def)

lemma renderLayersRaw_loop_paint:
  "i < int (length layers) \<Longrightarrow>
     renderLayersRaw_loop e layers i ctx
       = paint_each (paintRaw e) (paint_order (take (nat (i + 1)) layers)) ctx"
proof (induction e layers i ctx rule: renderLayersRaw_loop.induct)
  case (1 e layers i ctx)
  show ?case
  proof (cases "0 \<le> i")
    case False
    then show ?thesis
      by (simp add: renderLayersRaw_loop.simps [of e layers i])
  next
    case True
    define l where "l = layers ! nat i"
    from True "1.prems" have inside: "nat i < length layers"
      by simp
    from True have idx: "nat (i + 1) = Suc (nat i)" "nat (i - 1 + 1) = nat i"
      by simp_all
    have split: "paint_order (take (nat (i + 1)) layers)
        = paint_order [l] @ paint_order (take (nat i) layers)"
      using inside by (simp add: idx take_Suc_conv_app_nth paint_order_append l_def)
    from "1.prems" have below: "i - 1 < int (length layers)"
      by simp
    show ?thesis
    proof (cases "l_hidden l \<or> l_adjustment l")
      case skipped: True
      with True inside have "renderLayersRaw_loop e layers i ctx = renderLayersRaw_loop e layers (i - 1) ctx"
        by (simp add: renderLayersRaw_loop.simps [of e layers i] l_def)
      also have "\<dots> = paint_each (paintRaw e) (paint_order (take (nat i) layers)) ctx"
        using "1.IH"(1) [OF True inside l_def skipped below] by (simp add: idx)
      finally show ?thesis
        using skipped by (simp add: split paint_order_single)
    next
      case visible: False
      show ?thesis
      proof (cases "l_children l")
        case (Some cs)
        have inner: "renderLayersRaw_loop e cs (int (length cs) - 1) ctx
            = paint_each (paintRaw e) (paint_order cs) ctx"
          using "1.IH"(3) [OF True inside l_def visible Some] by simp
        have outer: "renderLayersRaw_loop e layers (i - 1) ctx'
            = paint_each (paintRaw e) (paint_order (take (nat i) layers)) ctx'"
          if "renderLayersRaw_loop e cs (int (length cs) - 1) ctx = Inr ctx'" for ctx'
          using "1.IH"(4) [OF True inside l_def visible Some that below] by (simp add: idx)
        have "renderLayersRaw_loop e layers i ctx
            = and_then (renderLayersRaw_loop e cs (int (length cs) - 1) ctx)
                (renderLayersRaw_loop e layers (i - 1))"
          using True inside visible Some
          by (simp add: renderLayersRaw_loop.simps [of e layers i] l_def [symmetric] and_then_def)
        also have "\<dots> = and_then (paint_each (paintRaw e) (paint_order cs) ctx)
                (paint_each (paintRaw e) (paint_order (take (nat i) layers)))"
          using outer by (auto simp: and_then_def inner [symmetric] split: sum.splits)
        finally show ?thesis
          using visible Some by (simp add: split paint_order_single paint_each_append)
      next
        case None
        have outer: "renderLayersRaw_loop e layers (i - 1) ctx'
            = paint_each (paintRaw e) (paint_order (take (nat i) layers)) ctx'"
          if "paintRaw e l ctx = Inr ctx'" for ctx'
          using "1.IH"(2) [OF True inside l_def visible None that below] by (simp add: idx)
        have "renderLayersRaw_loop e layers i ctx
            = and_then (paintRaw e l ctx) (renderLayersRaw_loop e layers (i - 1))"
          using True inside visible None
          by (simp add: renderLayersRaw_loop.simps [of e layers i] l_def [symmetric] and_then_def)
        also have "\<dots> = and_then (paintRaw e l ctx)
                (paint_each (paintRaw e) (paint_order (take (nat i) layers)))"
          using outer by (auto simp: and_then_def split: sum.splits)
        finally show ?thesis
          using visible None by (simp add: split paint_order_single and_then_def)
      qed
    qed
  qed
qed

lemma renderLayersRaw_paint_order:
  "renderLayersRaw e ctx layers = paint_each (paintRaw e) (paint_order layers) ctx"
  using renderLayersRaw_loop_paint [of "int (length layers) - 1" layers e ctx]
  by (simp add: renderLayersRaw_def)

lemma set_globalAlpha_saved [simp]: "ctx_saved (set_globalAlpha a ctx) = ctx_saved ctx"
  by (simp add: set_globalAlpha_def)

lemma set_globalCompositeOperation_saved [simp]:
  "ctx_saved (set_globalCompositeOperation v ctx) = ctx_saved ctx"
  by (simp add: set_globalCompositeOperation_def split: property.splits)

lemma drawImage_saved:
  "drawImage src dx dy ctx = Inr ctx' \<Longrightarrow> ctx_saved ctx' = ctx_saved ctx"
  by (auto simp: drawImage_def split: if_splits)

lemma restore_saved:
  "ctx_saved ctx = (a, m) # st \<Longrightarrow>
     globalAlpha (restore ctx) = a \<and> globalCompositeOperation (restore ctx) = m
     \<and> ctx_saved (restore ctx) = st"
  by (simp add: restore_def)

lemma paintLayer_state:
  assumes "paintLayer l src ctx = Inr ctx'"
  shows "globalAlpha ctx' = globalAlpha ctx
       \<and> globalCompositeOperation ctx' = globalCompositeOperation ctx
       \<and> ctx_saved ctx' = ctx_saved ctx"
proof -
  define c3 where "c3 =
    set_globalCompositeOperation
      (case BLEND_MODE_MAP_get
              (case l_blendMode l of None \<Rightarrow> ''normal'' | Some s \<Rightarrow> if s = [] then ''normal'' else s) of
         None \<Rightarrow> Str ''source-over'' | Some v \<Rightarrow> v)
      (set_globalAlpha ((case l_opacity l of None \<Rightarrow> 255 | Some v \<Rightarrow> v) / 255) (save ctx))"
  have saved: "ctx_saved c3 = (globalAlpha ctx, globalCompositeOperation ctx) # ctx_saved ctx"
    by (simp add: c3_def save_def)
  from assms obtain c4 where
    draw: "drawImage src (case l_left l of None \<Rightarrow> 0 | Some x \<Rightarrow> x)
                 (case l_top l of None \<Rightarrow> 0 | Some y \<Rightarrow> y) c3 = Inr c4"
    and result: "ctx' = restore c4"
    by (auto simp: paintLayer_def Let_def c3_def split: sum.splits)
  from drawImage_saved [OF draw] saved
  have "ctx_saved c4 = (globalAlpha ctx, globalCompositeOperation ctx) # ctx_saved ctx"
    by simp
  from restore_saved [OF this] result show ?thesis
    by simp
qed

lemma paintCanvas_state:
  "paintCanvas l ctx = Inr ctx' \<Longrightarrow> globalCompositeOperation ctx' = globalCompositeOperation ctx"
  by (auto simp: paintCanvas_def split: option.splits dest: paintLayer_state)

lemma paintRaw_state:
  "paintRaw e l ctx = Inr ctx' \<Longrightarrow> globalCompositeOperation ctx' = globalCompositeOperation ctx"
  by (auto simp: paintRaw_def split: option.splits if_splits sum.splits dest: paintLayer_state)

lemma paint_each_state:
  assumes step: "\<And>l c c'. p l c = Inr c' \<Longrightarrow> globalCompositeOperation c' = globalCompositeOperation c"
    and run: "paint_each p ls ctx = Inr ctx'"
  shows "globalCompositeOperation ctx' = globalCompositeOperation ctx"
  using run
proof (induction ls arbitrary: ctx)
  case Nil
  then show ?case by simp
next
  case (Cons l ls)
  then obtain c where "p l ctx = Inr c" and "paint_each p ls c = Inr ctx'"
    by (auto split: sum.splits)
  with Cons.IH step show ?case
    by fastforce
qed

lemma renderLayersCanvas_state:
  "renderLayersCanvas ctx layers = Inr ctx' \<Longrightarrow>
     globalCompositeOperation ctx' = globalCompositeOperation ctx"
  unfolding renderLayersCanvas_paint_order by (rule paint_each_state [OF paintCanvas_state])

lemma renderLayersRaw_state:
  "renderLayersRaw e ctx layers = Inr ctx' \<Longrightarrow>
     globalCompositeOperation ctx' = globalCompositeOperation ctx"
  unfolding renderLayersRaw_paint_order by (rule paint_each_state [OF paintRaw_state])

lemma renderLayersCanvas_append:
  "renderLayersCanvas ctx (xs @ ys)
     = and_then (renderLayersCanvas ctx ys) (\<lambda>c. renderLayersCanvas c xs)"
  by (simp add: renderLayersCanvas_paint_order paint_order_append paint_each_append)

lemma renderLayersRaw_append:
  "renderLayersRaw e ctx (xs @ ys)
     = and_then (renderLayersRaw e ctx ys) (\<lambda>c. renderLayersRaw e c xs)"
  by (simp add: renderLayersRaw_paint_order paint_order_append paint_each_append)

lemma renderLayersCanvas_single:
  "renderLayersCanvas ctx [l] =
    (if l_hidden l \<or> l_adjustment l then Inr ctx
     else (case l_children l of Some cs \<Rightarrow> renderLayersCanvas ctx cs | None \<Rightarrow> paintCanvas l ctx))"
  by (simp add: renderLayersCanvas_paint_order paint_order_single split: option.splits sum.splits)

lemma renderLayersRaw_single:
  "renderLayersRaw e ctx [l] =
    (if l_hidden l \<or> l_adjustment l then Inr ctx
     else (case l_children l of Some cs \<Rightarrow> renderLayersRaw e ctx cs | None \<Rightarrow> paintRaw e l ctx))"
  by (simp add: renderLayersRaw_paint_order paint_order_single split: option.splits sum.splits)

lemma and_then_assoc:
  "and_then (and_then r f) g = and_then r (\<lambda>x. and_then (f x) g)"
  by (simp add: and_then_def split: sum.splits)

lemma paint_order_insert:
  "paint_order (before @ l # after) = (paint_order after @ paint_order [l]) @ paint_order before"
proof -
  have "before @ l # after = before @ ([l] @ after)"
    by simp
  then show ?thesis
    by (simp only: paint_order_append)
qed

lemma renderLayersCanvas_insert:
  "renderLayersCanvas ctx (before @ l # after)
     = and_then (renderLayersCanvas ctx after)
         (\<lambda>c1. and_then (renderLayersCanvas c1 [l]) (\<lambda>c2. renderLayersCanvas c2 before))"
  by (simp only: renderLayersCanvas_paint_order paint_order_insert paint_each_append and_then_assoc)

lemma renderLayersRaw_insert:
  "renderLayersRaw e ctx (before @ l # after)
     = and_then (renderLayersRaw e ctx after)
         (\<lambda>c1. and_then (renderLayersRaw e c1 [l]) (\<lambda>c2. renderLayersRaw e c2 before))"
  by (simp only: renderLayersRaw_paint_order paint_order_insert paint_each_append and_then_assoc)

lemma and_then_Inr [simp]: "and_then r Inr = r"
  by (simp add: and_then_def split: sum.splits)

lemmas run_simps =
  renderLayersCanvas_paint_order renderLayersRaw_paint_order paint_order.simps
  paintCanvas_def paintRaw_def paintLayer_def save_def restore_def set_globalAlpha_def
  set_globalCompositeOperation_def drawImage_def BLEND_MODE_MAP_get_def BLEND_MODE_MAP_def
  Object_prototype_keys_def composite_operations_def blank_context_def and_then_def

text \<open>
  C4. Both compositors visit the siblings in reverse list order: the layers of a sequence
  \<open>xs @ ys\<close> are composited by compositing \<open>ys\<close> first and \<open>xs\<close> after it, on the surface
  that \<open>ys\<close> left. A hidden layer and an adjustment layer are skipped entirely: the
  surface stays as it is, whatever the layer contains. A visible group with children is
  composited by compositing its children on the same surface, and nothing else. A visible
  layer without a \<open>children\<close> field is handed to the painting step of the compositor.
\<close>

theorem siblings_back_to_front:
  "renderLayersRaw e ctx (xs @ ys) = and_then (renderLayersRaw e ctx ys) (\<lambda>c. renderLayersRaw e c xs)
   \<and> renderLayersCanvas ctx (xs @ ys) = and_then (renderLayersCanvas ctx ys) (\<lambda>c. renderLayersCanvas c xs)
   \<and> (l_hidden l \<or> l_adjustment l \<longrightarrow>
        renderLayersRaw e ctx [l] = Inr ctx \<and> renderLayersCanvas ctx [l] = Inr ctx)
   \<and> (\<not> l_hidden l \<and> \<not> l_adjustment l \<and> l_children l = Some cs \<and> cs \<noteq> [] \<longrightarrow>
        renderLayersRaw e ctx [l] = renderLayersRaw e ctx cs
      \<and> renderLayersCanvas ctx [l] = renderLayersCanvas ctx cs)
   \<and> (\<not> l_hidden l \<and> \<not> l_adjustment l \<and> l_children l = None \<longrightarrow>
        renderLayersRaw e ctx [l] = paintRaw e l ctx
      \<and> renderLayersCanvas ctx [l] = paintCanvas l ctx)"
  by (simp add: renderLayersRaw_append renderLayersCanvas_append renderLayersRaw_single
        renderLayersCanvas_single)

theorem siblings_back_to_front_witness:
  "renderLayersCanvas blank_context
      [Layer True False None None (Some (Canvas 1 1 [])) None None None None]
     = Inr blank_context
   \<and> renderLayersCanvas blank_context
      [Layer False False
         (Some [Layer False False None None (Some (Canvas 2 2 [])) (Some 51) (Some ''screen'') None None])
         None (Some (Canvas 3 3 [])) None None None None]
     = renderLayersCanvas blank_context
      [Layer False False None None (Some (Canvas 2 2 [])) (Some 51) (Some ''screen'') None None]
   \<and> renderLayersCanvas blank_context
      ([Layer False False None None (Some (Canvas 1 1 [])) None (Some ''multiply'') (Some 2) None,
        Layer True False None None (Some (Canvas 1 1 [])) None None None None]
       @ [Layer False False
            (Some [Layer False False None None (Some (Canvas 2 2 [])) (Some 51) (Some ''screen'') None None])
            None (Some (Canvas 3 3 [])) None None None None])
     = Inr (blank_context\<lparr>ctx_canvas :=
              Canvas 4 4 [DrawImage (Canvas 2 2 []) (1 / 5) ''screen'' 0 0,
                          DrawImage (Canvas 1 1 []) 1 ''multiply'' 2 0]\<rparr>)"
proof -
  let ?e = "\<lparr>readPsd = failing_parser, context2d_available = every_canvas,
      can_allocate = ample_memory\<rparr>"
  let ?A = "Layer False False None None (Some (Canvas 1 1 [])) None (Some ''multiply'') (Some 2) None"
  let ?H = "Layer True False None None (Some (Canvas 1 1 [])) None None None None"
  let ?B = "Layer False False None None (Some (Canvas 2 2 [])) (Some 51) (Some ''screen'') None None"
  let ?G = "Layer False False (Some [?B]) None (Some (Canvas 3 3 [])) None None None None"
  have leaf: "renderLayersCanvas blank_context [?B]
      = Inr (blank_context\<lparr>ctx_canvas := Canvas 4 4 [DrawImage (Canvas 2 2 []) (1 / 5) ''screen'' 0 0]\<rparr>)"
    by (simp add: run_simps)
  have top: "renderLayersCanvas
        (blank_context\<lparr>ctx_canvas := Canvas 4 4 [DrawImage (Canvas 2 2 []) (1 / 5) ''screen'' 0 0]\<rparr>) [?A, ?H]
      = Inr (blank_context\<lparr>ctx_canvas :=
              Canvas 4 4 [DrawImage (Canvas 2 2 []) (1 / 5) ''screen'' 0 0,
                          DrawImage (Canvas 1 1 []) 1 ''multiply'' 2 0]\<rparr>)"
    by (simp add: run_simps)
  from siblings_back_to_front [of ?e blank_context "[?A, ?H]" "[?G]" ?H "[]"]
  have hidden: "renderLayersCanvas blank_context [?H] = Inr blank_context"
    and order: "renderLayersCanvas blank_context ([?A, ?H] @ [?G])
      = and_then (renderLayersCanvas blank_context [?G]) (\<lambda>c. renderLayersCanvas c [?A, ?H])"
    by simp_all
  from siblings_back_to_front [of ?e blank_context "[]" "[]" ?G "[?B]"]
  have group: "renderLayersCanvas blank_context [?G] = renderLayersCanvas blank_context [?B]"
    by simp
  from hidden group order show ?thesis
    by (simp only: leaf top and_then_def sum.case)
qed

text \<open>
  C10. In both compositors a layer that carries a \<open>children\<close> sequence, empty or not,
  counts as a group: where it stands among its siblings, its children are composited if
  it is neither hidden nor an adjustment layer, and nothing otherwise, so that its own
  \<open>imageData\<close> and \<open>canvas\<close> play no part. With an empty sequence the result is that of the
  siblings without the layer.
\<close>

theorem children_field_makes_group:
  assumes "l_children l = Some cs"
  shows
    "renderLayersRaw e ctx (before @ l # after)
       = and_then (renderLayersRaw e ctx after)
           (\<lambda>c1. and_then (if l_hidden l \<or> l_adjustment l then Inr c1 else renderLayersRaw e c1 cs)
                   (\<lambda>c2. renderLayersRaw e c2 before))
     \<and> renderLayersCanvas ctx (before @ l # after)
       = and_then (renderLayersCanvas ctx after)
           (\<lambda>c1. and_then (if l_hidden l \<or> l_adjustment l then Inr c1 else renderLayersCanvas c1 cs)
                   (\<lambda>c2. renderLayersCanvas c2 before))
     \<and> (cs = [] \<longrightarrow>
          renderLayersRaw e ctx (before @ l # after) = renderLayersRaw e ctx (before @ after)
        \<and> renderLayersCanvas ctx (before @ l # after) = renderLayersCanvas ctx (before @ after))"
proof -
  have empty_raw: "renderLayersRaw e c [] = Inr c" for c
    by (simp add: renderLayersRaw_paint_order)
  have empty_canvas: "renderLayersCanvas c [] = Inr c" for c
    by (simp add: renderLayersCanvas_paint_order)
  have raw: "renderLayersRaw e c1 [l]
      = (if l_hidden l \<or> l_adjustment l then Inr c1 else renderLayersRaw e c1 cs)" for c1
    using assms by (simp add: renderLayersRaw_single)
  have canvas: "renderLayersCanvas c1 [l]
      = (if l_hidden l \<or> l_adjustment l then Inr c1 else renderLayersCanvas c1 cs)" for c1
    using assms by (simp add: renderLayersCanvas_single)
  have "renderLayersRaw e c1 [l] = Inr c1" "renderLayersCanvas c1 [l] = Inr c1" if "cs = []" for c1
    using that by (simp_all add: raw canvas empty_raw empty_canvas)
  then have "cs = [] \<Longrightarrow>
      renderLayersRaw e ctx (before @ l # after) = renderLayersRaw e ctx (before @ after)
    \<and> renderLayersCanvas ctx (before @ l # after) = renderLayersCanvas ctx (before @ after)"
    by (simp only: renderLayersRaw_insert renderLayersCanvas_insert)
       (simp add: renderLayersRaw_append renderLayersCanvas_append and_then_def)
  then show ?thesis
    by (simp add: renderLayersRaw_insert renderLayersCanvas_insert raw canvas)
qed

theorem children_field_makes_group_witness:
  "l_children (Layer False False (Some [])
       (Some \<lparr>pd_data = \<lparr>ta_buffer = [255, 0, 0, 255], ta_length = 4\<rparr>, pd_width = 1, pd_height = 1\<rparr>)
       (Some (Canvas 1 1 [])) None None None None) = Some []
   \<and> renderLayersRaw \<lparr>readPsd = failing_parser, context2d_available = every_canvas,
      can_allocate = ample_memory\<rparr> blank_context
       ([] @ Layer False False (Some [])
               (Some \<lparr>pd_data = \<lparr>ta_buffer = [255, 0, 0, 255], ta_length = 4\<rparr>, pd_width = 1, pd_height = 1\<rparr>)
               (Some (Canvas 1 1 [])) None None None None # [])
     = Inr blank_context
   \<and> renderLayersCanvas blank_context
       ([] @ Layer False False (Some [])
               (Some \<lparr>pd_data = \<lparr>ta_buffer = [255, 0, 0, 255], ta_length = 4\<rparr>, pd_width = 1, pd_height = 1\<rparr>)
               (Some (Canvas 1 1 [])) None None None None # [])
     = Inr blank_context"
proof -
  let ?e = "\<lparr>readPsd = failing_parser, context2d_available = every_canvas,
      can_allocate = ample_memory\<rparr>"
  let ?G = "Layer False False (Some [])
       (Some \<lparr>pd_data = \<lparr>ta_buffer = [255, 0, 0, 255], ta_length = 4\<rparr>, pd_width = 1, pd_height = 1\<rparr>)
       (Some (Canvas 1 1 [])) None None None None"
  have group: "l_children ?G = Some []"
    by simp
  have none: "renderLayersRaw ?e blank_context [] = Inr blank_context"
    "renderLayersCanvas blank_context [] = Inr blank_context"
    by (simp_all add: renderLayersRaw_paint_order renderLayersCanvas_paint_order)
  from children_field_makes_group [OF group, of ?e blank_context "[]" "[]"]
  have "renderLayersRaw ?e blank_context ([] @ ?G # []) = renderLayersRaw ?e blank_context ([] @ [])"
    and "renderLayersCanvas blank_context ([] @ ?G # []) = renderLayersCanvas blank_context ([] @ [])"
    by blast+
  with none group show ?thesis
    by simp
qed

subsection \<open>The blend-mode fallback\<close>

lemma normal_is_source_over:
  "BLEND_MODE_MAP_get ''normal'' = Some (Str ''source-over'')"
  by (simp add: BLEND_MODE_MAP_get_def BLEND_MODE_MAP_def)

lemma source_over_valid: "''source-over'' \<in> set composite_operations"
  by (simp add: composite_operations_def)

lemma unknown_tag:
  assumes "t \<notin> fst ` set BLEND_MODE_MAP"
  shows "BLEND_MODE_MAP_get t = None \<or> BLEND_MODE_MAP_get t = Some Inherited"
proof -
  from assms have "map_of BLEND_MODE_MAP t = None"
    by (simp add: map_of_eq_None_iff)
  then show ?thesis
    by (simp add: BLEND_MODE_MAP_get_def)
qed

lemma set_source_over:
  "globalCompositeOperation c = ''source-over'' \<Longrightarrow>
     set_globalCompositeOperation (Str ''source-over'') c = c
   \<and> set_globalCompositeOperation Inherited c = c"
  by (simp add: set_globalCompositeOperation_def source_over_valid)

lemma paintLayer_unknown_tag:
  assumes default: "globalCompositeOperation ctx = ''source-over''"
    and tag: "l_blendMode l = Some t" and unknown: "t \<notin> fst ` set BLEND_MODE_MAP"
  shows "paintLayer (with_blendMode ''normal'' l) src ctx = paintLayer l src ctx"
proof -
  define c2 where "c2 = set_globalAlpha ((case l_opacity l of None \<Rightarrow> 255 | Some v \<Rightarrow> v) / 255) (save ctx)"
  have "globalCompositeOperation c2 = ''source-over''"
    using default by (simp add: c2_def set_globalAlpha_def save_def)
  then have same: "set_globalCompositeOperation (Str ''source-over'') c2 = c2"
    "set_globalCompositeOperation Inherited c2 = c2"
    using set_source_over by blast+
  have "set_globalCompositeOperation
          (case BLEND_MODE_MAP_get (if t = [] then ''normal'' else t) of
             None \<Rightarrow> Str ''source-over'' | Some v \<Rightarrow> v) c2 = c2"
    using unknown_tag [OF unknown] same
    by (auto simp: normal_is_source_over)
  with same show ?thesis
    by (simp add: paintLayer_def with_blendMode_def tag normal_is_source_over c2_def [symmetric])
qed

lemma and_then_cong:
  "(\<And>x. r = Inr x \<Longrightarrow> f x = g x) \<Longrightarrow> and_then r f = and_then r g"
  by (simp add: and_then_def split: sum.splits)

lemma with_blendMode_fields [simp]:
  "l_hidden (with_blendMode tag l) = l_hidden l"
  "l_adjustment (with_blendMode tag l) = l_adjustment l"
  "l_children (with_blendMode tag l) = l_children l"
  "l_imageData (with_blendMode tag l) = l_imageData l"
  "l_canvas (with_blendMode tag l) = l_canvas l"
  by (simp_all add: with_blendMode_def)

lemma renderLayersCanvas_unknown_tag:
  assumes default: "globalCompositeOperation ctx = ''source-over''"
    and tag: "l_blendMode l = Some t" and unknown: "t \<notin> fst ` set BLEND_MODE_MAP"
  shows "renderLayersCanvas ctx (before @ with_blendMode ''normal'' l # after)
       = renderLayersCanvas ctx (before @ l # after)"
proof -
  have "renderLayersCanvas c1 [with_blendMode ''normal'' l] = renderLayersCanvas c1 [l]"
    if "renderLayersCanvas ctx after = Inr c1" for c1
  proof -
    from renderLayersCanvas_state [OF that] default
    have "globalCompositeOperation c1 = ''source-over''"
      by simp
    then have "paintCanvas (with_blendMode ''normal'' l) c1 = paintCanvas l c1"
      by (simp add: paintCanvas_def paintLayer_unknown_tag [OF _ tag unknown] split: option.splits)
    then show ?thesis
      by (simp add: renderLayersCanvas_single split: option.splits)
  qed
  then show ?thesis
    unfolding renderLayersCanvas_insert
    by (intro and_then_cong) simp
qed

lemma renderLayersRaw_unknown_tag:
  assumes default: "globalCompositeOperation ctx = ''source-over''"
    and tag: "l_blendMode l = Some t" and unknown: "t \<notin> fst ` set BLEND_MODE_MAP"
  shows "renderLayersRaw e ctx (before @ with_blendMode ''normal'' l # after)
       = renderLayersRaw e ctx (before @ l # after)"
proof -
  have "renderLayersRaw e c1 [with_blendMode ''normal'' l] = renderLayersRaw e c1 [l]"
    if "renderLayersRaw e ctx after = Inr c1" for c1
  proof -
    from renderLayersRaw_state [OF that] default
    have "globalCompositeOperation c1 = ''source-over''"
      by simp
    then have "paintRaw e (with_blendMode ''normal'' l) c1 = paintRaw e l c1"
      by (simp add: paintRaw_def paintLayer_unknown_tag [OF _ tag unknown]
            split: option.splits sum.splits)
    then show ?thesis
      by (simp add: renderLayersRaw_single split: option.splits)
  qed
  then show ?thesis
    unfolding renderLayersRaw_insert
    by (intro and_then_cong) simp
qed

lemma getContext_default:
  "getContext e c = Some ctx \<Longrightarrow> globalCompositeOperation ctx = ''source-over''"
  by (auto simp: getContext_def split: if_splits)

text \<open>
  C5. A layer whose blend-mode tag is not a key of \<open>BLEND_MODE_MAP\<close> is composited
  exactly as the same layer tagged \<open>normal\<close>, wherever it stands among its siblings: by
  both compositors on a context whose compositing operation is the default \<open>source-over\<close>
  (which \<open>getContext\<close> delivers and the compositors leave in place), and so by
  \<open>compositeCanvasLayers\<close> and \<open>compositeRawLayers\<close> on any document.
\<close>

theorem unknown_blend_mode_is_normal:
  assumes "l_blendMode l = Some t" and "t \<notin> fst ` set BLEND_MODE_MAP"
  shows
    "(globalCompositeOperation ctx = ''source-over'' \<longrightarrow>
        renderLayersCanvas ctx (before @ l # after)
          = renderLayersCanvas ctx (before @ with_blendMode ''normal'' l # after)
      \<and> renderLayersRaw e ctx (before @ l # after)
          = renderLayersRaw e ctx (before @ with_blendMode ''normal'' l # after))
   \<and> compositeCanvasLayers e (psd\<lparr>psd_children := Some (before @ l # after)\<rparr>)
       = compositeCanvasLayers e (psd\<lparr>psd_children := Some (before @ with_blendMode ''normal'' l # after)\<rparr>)
   \<and> compositeRawLayers e (psd\<lparr>psd_children := Some (before @ l # after)\<rparr>)
       = compositeRawLayers e (psd\<lparr>psd_children := Some (before @ with_blendMode ''normal'' l # after)\<rparr>)"
proof -
  have "renderLayersCanvas c (before @ l # after)
          = renderLayersCanvas c (before @ with_blendMode ''normal'' l # after)"
    and "renderLayersRaw e c (before @ l # after)
          = renderLayersRaw e c (before @ with_blendMode ''normal'' l # after)"
    if "globalCompositeOperation c = ''source-over''" for c
    using renderLayersCanvas_unknown_tag [OF that assms] renderLayersRaw_unknown_tag [OF that assms]
    by simp_all
  then show ?thesis
    by (auto simp: compositeCanvasLayers_def compositeRawLayers_def
          split: option.splits dest: getContext_default)
qed

theorem unknown_blend_mode_is_normal_witness:
  "l_blendMode (Layer False False None None (Some (Canvas 1 1 [])) None (Some ''constructor'') None None)
     = Some ''constructor''
   \<and> ''constructor'' \<notin> fst ` set BLEND_MODE_MAP
   \<and> globalCompositeOperation blank_context = ''source-over''
   \<and> renderLayersCanvas blank_context
        ([] @ Layer False False None None (Some (Canvas 1 1 [])) None (Some ''constructor'') None None # [])
     = renderLayersCanvas blank_context
        ([] @ with_blendMode ''normal''
               (Layer False False None None (Some (Canvas 1 1 [])) None (Some ''constructor'') None None) # [])
   \<and> renderLayersCanvas blank_context
        ([] @ with_blendMode ''normal''
               (Layer False False None None (Some (Canvas 1 1 [])) None (Some ''constructor'') None None) # [])
     = Inr (blank_context\<lparr>ctx_canvas :=
              Canvas 4 4 [DrawImage (Canvas 1 1 []) 1 ''source-over'' 0 0]\<rparr>)"
proof -
  let ?e = "\<lparr>readPsd = failing_parser, context2d_available = every_canvas,
      can_allocate = ample_memory\<rparr>"
  let ?l = "Layer False False None None (Some (Canvas 1 1 [])) None (Some ''constructor'') None None"
  have tag: "l_blendMode ?l = Some ''constructor''"
    by simp
  have unknown: "''constructor'' \<notin> fst ` set BLEND_MODE_MAP"
    by (simp add: BLEND_MODE_MAP_def)
  have default: "globalCompositeOperation blank_context = ''source-over''"
    by (simp add: blank_context_def)
  have normal: "renderLayersCanvas blank_context ([] @ with_blendMode ''normal'' ?l # [])
     = Inr (blank_context\<lparr>ctx_canvas :=
              Canvas 4 4 [DrawImage (Canvas 1 1 []) 1 ''source-over'' 0 0]\<rparr>)"
    by (simp add: run_simps with_blendMode_def)
  from unknown_blend_mode_is_normal [OF tag unknown, of blank_context "[]" "[]" ?e] default
  have "renderLayersCanvas blank_context ([] @ ?l # [])
     = renderLayersCanvas blank_context ([] @ with_blendMode ''normal'' ?l # [])"
    by blast
  with tag unknown default normal show ?thesis
    by (simp only: simp_thms)
qed

end
